theory Spec2Isabelle
  imports Main
begin

section \<open>Text and the substring test\<close>

text \<open>
  The four front-ends (\<^verbatim>\<open>code-analysis.py\<close>, \<^verbatim>\<open>code-reviewer.py\<close>, \<^verbatim>\<open>pynvme.py\<close>,
  \<^verbatim>\<open>renode.py\<close>) work on Python \<^verbatim>\<open>str\<close> and \<^verbatim>\<open>bytes\<close> values; both are modelled as
  \<^typ>\<open>string\<close>. Python's \<^verbatim>\<open>needle in hay\<close> on strings is the contiguous-substring test:
  \<open>str_in\<close> scans \<open>hay\<close> from the left and compares \<open>needle\<close> with the front of what is
  left.
\<close>

type_synonym bytes = string

fun starts_with :: "'a list \<Rightarrow> 'a list \<Rightarrow> bool" where
  "starts_with [] hay = True"
| "starts_with (n # ns) [] = False"
| "starts_with (n # ns) (h # hs) = (n = h \<and> starts_with ns hs)"

fun str_in :: "'a list \<Rightarrow> 'a list \<Rightarrow> bool" where
  "str_in needle [] = (needle = [])"
| "str_in needle (h # hs) = (starts_with needle (h # hs) \<or> str_in needle hs)"

section \<open>pynvme.py: validate_test_syntax\<close>

text \<open>
  \<^verbatim>\<open>validate_test_syntax\<close> (pynvme.py, lines 62-99) fills a dictionary with the four keys
  \<^verbatim>\<open>is_valid\<close>, \<^verbatim>\<open>errors\<close>, \<^verbatim>\<open>warnings\<close>, \<^verbatim>\<open>suggestions\<close>. The loop over
  \<^verbatim>\<open>required_imports\<close> is \<open>check_imports\<close>; the three \<^verbatim>\<open>if\<close> statements after it follow
  in the order of the source. No operation of the body can raise on a \<^verbatim>\<open>str\<close> argument,
  so the model has no error branch.
\<close>

record validation_results =
  is_valid :: bool
  errors :: "string list"
  warnings :: "string list"
  suggestions :: "string list"

definition required_imports :: "string list" where
  "required_imports = [''pytest'', ''pynvme'']"

fun check_imports :: "string list \<Rightarrow> string \<Rightarrow> validation_results \<Rightarrow> validation_results" where
  "check_imports [] test_code vr = vr"
| "check_imports (imp # imps) test_code vr =
     check_imports imps test_code
       (if \<not> str_in imp test_code
        then vr\<lparr>errors := errors vr @ [''Missing import: '' @ imp], is_valid := False\<rparr>
        else vr)"

definition validate_test_syntax :: "string \<Rightarrow> validation_results" where
  "validate_test_syntax test_code =
     (let vr0 = \<lparr>is_valid = True, errors = [], warnings = [], suggestions = []\<rparr>;
          vr1 = check_imports required_imports test_code vr0;
          vr2 = (if \<not> str_in ''def test_'' test_code
                 then vr1\<lparr>errors := errors vr1 @
                            [''No test function found (should start with 'def test_')''],
                          is_valid := False\<rparr>
                 else vr1);
          vr3 = (if \<not> str_in ''nvme'' test_code \<and> \<not> str_in ''subsystem'' test_code
                 then vr2\<lparr>warnings := warnings vr2 @
                            [''No PyNVMe fixture (nvme/subsystem) detected'']\<rparr>
                 else vr2);
          vr4 = (if \<not> str_in ''assert'' test_code
                 then vr3\<lparr>warnings := warnings vr3 @ [''No assertions found in test'']\<rparr>
                 else vr3)
      in vr4)"

section \<open>Exceptions and the clock\<close>

text \<open>
  A raised Python exception is a value: its class name and the text \<^verbatim>\<open>str(e)\<close>. An
  operation that may raise returns \<open>Some e\<close> when it raised \<open>e\<close> and \<open>None\<close> when it
  returned normally.
\<close>

datatype exn = Exn (exn_class: string) (str_exn: string)

text \<open>
  \<^verbatim>\<open>datetime.now()\<close> is an input of the model. A \<^verbatim>\<open>datetime\<close> has the fields below, and
  the class bounds them (\<open>valid_datetime\<close>; \<^verbatim>\<open>MAXYEAR\<close> is 9999).
  \<^verbatim>\<open>strftime("%Y%m%d_%H%M%S")\<close> writes the year with four digits and the other fields
  with two; the microseconds are not part of the format.
\<close>

record datetime =
  year :: nat
  month :: nat
  day :: nat
  hour :: nat
  minute :: nat
  second :: nat
  microsecond :: nat

definition valid_datetime :: "datetime \<Rightarrow> bool" where
  "valid_datetime d =
     (1 \<le> year d \<and> year d \<le> 9999 \<and> 1 \<le> month d \<and> month d \<le> 12 \<and>
      1 \<le> day d \<and> day d \<le> 31 \<and> hour d < 24 \<and> minute d < 60 \<and> second d < 60 \<and>
      microsecond d < 1000000)"

definition digit :: "nat \<Rightarrow> char" where
  "digit d =
     (if d = 0 then CHR ''0'' else if d = 1 then CHR ''1'' else if d = 2 then CHR ''2''
      else if d = 3 then CHR ''3'' else if d = 4 then CHR ''4'' else if d = 5 then CHR ''5''
      else if d = 6 then CHR ''6'' else if d = 7 then CHR ''7'' else if d = 8 then CHR ''8''
      else CHR ''9'')"

definition pad2 :: "nat \<Rightarrow> string" where
  "pad2 n = [digit (n div 10 mod 10), digit (n mod 10)]"

definition pad4 :: "nat \<Rightarrow> string" where
  "pad4 n = [digit (n div 1000 mod 10), digit (n div 100 mod 10),
             digit (n div 10 mod 10), digit (n mod 10)]"

definition strftime_file :: "datetime \<Rightarrow> string" where
  \<comment> \<open>\<^verbatim>\<open>strftime("%Y%m%d_%H%M%S")\<close>\<close>
  "strftime_file d =
     pad4 (year d) @ pad2 (month d) @ pad2 (day d) @ ''_'' @
     pad2 (hour d) @ pad2 (minute d) @ pad2 (second d)"

definition same_second :: "datetime \<Rightarrow> datetime \<Rightarrow> bool" where
  "same_second d1 d2 =
     (year d1 = year d2 \<and> month d1 = month d2 \<and> day d1 = day d2 \<and>
      hour d1 = hour d2 \<and> minute d1 = minute d2 \<and> second d1 = second d2)"

section \<open>Paths\<close>

text \<open>
  \<^verbatim>\<open>pathlib.Path\<close> on a POSIX system. A path is its root (\<^verbatim>\<open>""\<close>, \<^verbatim>\<open>"/"\<close> or
  \<^verbatim>\<open>"//"\<close>) and its parts; parsing splits at \<^verbatim>\<open>/\<close> and drops the empty pieces and the
  pieces \<^verbatim>\<open>.\<close>, and keeps \<^verbatim>\<open>..\<close>. \<open>truediv\<close> is the operator \<^verbatim>\<open>/\<close> with a string on
  the right: a right operand with a root replaces the left one. \<open>str_path\<close> is \<^verbatim>\<open>str()\<close>.
\<close>

record ppath =
  root :: string
  parts :: "string list"

fun split_sep :: "char \<Rightarrow> string \<Rightarrow> string list" where
  "split_sep sep [] = [[]]"
| "split_sep sep (c # cs) =
     (if c = sep then [] # split_sep sep cs
      else (case split_sep sep cs of
              [] \<Rightarrow> [[c]]
            | p # ps \<Rightarrow> (c # p) # ps))"

definition root_of :: "string \<Rightarrow> string" where
  "root_of s =
     (if starts_with ''//'' s \<and> \<not> starts_with ''///'' s then ''//''
      else if starts_with ''/'' s then ''/''
      else [])"

definition is_part :: "string \<Rightarrow> bool" where
  "is_part p = (p \<noteq> [] \<and> p \<noteq> ''.'')"

definition Path :: "string \<Rightarrow> ppath" where
  "Path s = \<lparr>root = root_of s, parts = filter is_part (split_sep CHR ''/'' s)\<rparr>"

definition truediv :: "ppath \<Rightarrow> string \<Rightarrow> ppath" where
  "truediv p s =
     (if root_of s \<noteq> [] then Path s
      else \<lparr>root = root p, parts = parts p @ parts (Path s)\<rparr>)"

fun join_sep :: "string \<Rightarrow> string list \<Rightarrow> string" where
  "join_sep sep [] = []"
| "join_sep sep [p] = p"
| "join_sep sep (p # q # ps) = p @ sep @ join_sep sep (q # ps)"

definition str_path :: "ppath \<Rightarrow> string" where
  "str_path p =
     (if root p = [] \<and> parts p = [] then ''.''
      else root p @ join_sep ''/'' (parts p))"

section \<open>The file system\<close>

text \<open>
  The save tools reach the operating system through two calls that may raise:
  \<^verbatim>\<open>Path.mkdir(parents=True, exist_ok=True)\<close> and \<^verbatim>\<open>open(filepath, "w")\<close> followed by
  \<^verbatim>\<open>f.write(text)\<close>. The tools are modelled over any pair of such operations (\<open>os\<close>):
  each returns the exception it raised, if any, and the file system it left.
\<close>

record 'fs os =
  os_mkdir :: "ppath \<Rightarrow> 'fs \<Rightarrow> exn option \<times> 'fs"
  os_write :: "ppath \<Rightarrow> string \<Rightarrow> 'fs \<Rightarrow> exn option \<times> 'fs"

text \<open>
  One such pair is a POSIX tree without symbolic links and without permissions: the nodes
  are keyed by their absolute location (the list of directory names from the root), the
  root itself is always a directory, and relative paths start at \<open>cwd\<close>. \<open>walk\<close> is
  the kernel's name lookup through existing directories; \<open>mkdirs\<close> is
  \<^verbatim>\<open>mkdir(parents=True, exist_ok=True)\<close>, which creates every missing directory on the way
  and raises where a file stands in the way; \<open>posix_write\<close> creates or truncates the file
  and writes the text; \<open>read_text\<close> is \<^verbatim>\<open>open(path).read()\<close>. The texts of the operating
  system's error messages are abbreviated.
\<close>

datatype node = Dir | File string

record filesystem =
  cwd :: "string list"
  nodes :: "string list \<Rightarrow> node option"

definition node_at :: "(string list \<Rightarrow> node option) \<Rightarrow> string list \<Rightarrow> node option" where
  "node_at ns loc = (if loc = [] then Some Dir else ns loc)"

definition start_of :: "filesystem \<Rightarrow> ppath \<Rightarrow> string list" where
  "start_of fs p = (if root p = [] then cwd fs else [])"

fun walk :: "(string list \<Rightarrow> node option) \<Rightarrow> string list \<Rightarrow> string list \<Rightarrow> exn + string list" where
  "walk ns cur [] = Inr cur"
| "walk ns cur (c # cs) =
     (if c = ''..'' then walk ns (butlast cur) cs
      else (case node_at ns (cur @ [c]) of
              Some Dir \<Rightarrow> walk ns (cur @ [c]) cs
            | Some (File t) \<Rightarrow> Inl (Exn ''NotADirectoryError'' ''Not a directory'')
            | None \<Rightarrow> Inl (Exn ''FileNotFoundError'' ''No such file or directory'')))"

fun mkdirs :: "(string list \<Rightarrow> node option) \<Rightarrow> string list \<Rightarrow> string list \<Rightarrow>
    exn option \<times> (string list \<Rightarrow> node option)" where
  "mkdirs ns cur [] = (None, ns)"
| "mkdirs ns cur (c # cs) =
     (if c = ''..'' then mkdirs ns (butlast cur) cs
      else (case node_at ns (cur @ [c]) of
              Some Dir \<Rightarrow> mkdirs ns (cur @ [c]) cs
            | Some (File t) \<Rightarrow>
                (Some (if cs = [] then Exn ''FileExistsError'' ''File exists''
                       else Exn ''NotADirectoryError'' ''Not a directory''), ns)
            | None \<Rightarrow> mkdirs (ns((cur @ [c]) \<mapsto> Dir)) (cur @ [c]) cs))"

definition posix_mkdir :: "ppath \<Rightarrow> filesystem \<Rightarrow> exn option \<times> filesystem" where
  "posix_mkdir p fs =
     (case mkdirs (nodes fs) (start_of fs p) (parts p) of
        (r, ns) \<Rightarrow> (r, fs\<lparr>nodes := ns\<rparr>))"

definition posix_write :: "ppath \<Rightarrow> string \<Rightarrow> filesystem \<Rightarrow> exn option \<times> filesystem" where
  "posix_write p text fs =
     (if parts p = [] \<or> last (parts p) = ''..''
      then (Some (Exn ''IsADirectoryError'' ''Is a directory''), fs)
      else (case walk (nodes fs) (start_of fs p) (butlast (parts p)) of
              Inl e \<Rightarrow> (Some e, fs)
            | Inr d \<Rightarrow>
                (case node_at (nodes fs) (d @ [last (parts p)]) of
                   Some Dir \<Rightarrow> (Some (Exn ''IsADirectoryError'' ''Is a directory''), fs)
                 | _ \<Rightarrow> (None, fs\<lparr>nodes := (nodes fs)((d @ [last (parts p)]) \<mapsto> File text)\<rparr>))))"

definition location :: "filesystem \<Rightarrow> ppath \<Rightarrow> string list option" where
  \<comment> \<open>where the last part of a path lies, when the directories before it exist\<close>
  "location fs p =
     (if parts p = [] \<or> last (parts p) = ''..'' then None
      else (case walk (nodes fs) (start_of fs p) (butlast (parts p)) of
              Inl e \<Rightarrow> None
            | Inr d \<Rightarrow> Some (d @ [last (parts p)])))"

definition read_text :: "filesystem \<Rightarrow> ppath \<Rightarrow> exn + string" where
  "read_text fs p =
     (case location fs p of
        None \<Rightarrow> Inl (Exn ''OSError'' ''cannot open'')
      | Some loc \<Rightarrow>
          (case node_at (nodes fs) loc of
             Some (File t) \<Rightarrow> Inr t
           | Some Dir \<Rightarrow> Inl (Exn ''IsADirectoryError'' ''Is a directory'')
           | None \<Rightarrow> Inl (Exn ''FileNotFoundError'' ''No such file or directory'')))"

definition posix :: "filesystem os" where
  "posix = \<lparr>os_mkdir = posix_mkdir, os_write = posix_write\<rparr>"

section \<open>The save tools\<close>

text \<open>
  \<^verbatim>\<open>save_test_case\<close> (pynvme.py, lines 183-219) and \<^verbatim>\<open>save_renode_code\<close> (renode.py,
  lines 262-309). The whole body of each is inside \<^verbatim>\<open>try\<close>; the \<^verbatim>\<open>except Exception\<close>
  branch is \<open>save_error\<close>. The default \<^verbatim>\<open>category="general"\<close> is passed by the caller
  of the model. The clock is read after the directory is made. \<open>test_case_path\<close> and
  \<open>renode_code_path\<close> are the variable \<^verbatim>\<open>filepath\<close> of the two functions.
\<close>

record save_result =
  status :: string
  filepath :: string
  message :: string

definition save_error :: "string \<Rightarrow> exn \<Rightarrow> save_result" where
  "save_error what e = \<lparr>status = ''error'', filepath = [], message = what @ str_exn e\<rparr>"

definition test_case_path :: "string \<Rightarrow> string \<Rightarrow> datetime \<Rightarrow> ppath" where
  "test_case_path test_name category now =
     (let test_dir = Path (''generated_tests/'' @ category);
          timestamp = strftime_file now;
          filename = test_name @ ''_'' @ timestamp @ ''.py''
      in truediv test_dir filename)"

definition save_test_case ::
    "'fs os \<Rightarrow> string \<Rightarrow> string \<Rightarrow> string \<Rightarrow> datetime \<Rightarrow> 'fs \<Rightarrow> save_result \<times> 'fs" where
  "save_test_case os test_name test_code category now fs =
     (let test_dir = Path (''generated_tests/'' @ category) in
      case os_mkdir os test_dir fs of
        (Some e, fs1) \<Rightarrow> (save_error ''Error saving test: '' e, fs1)
      | (None, fs1) \<Rightarrow>
          (let filepath = test_case_path test_name category now in
           case os_write os filepath test_code fs1 of
             (Some e, fs2) \<Rightarrow> (save_error ''Error saving test: '' e, fs2)
           | (None, fs2) \<Rightarrow>
               (\<lparr>status = ''success'', filepath = str_path filepath,
                 message = ''Test saved successfully to '' @ str_path filepath\<rparr>, fs2)))"

text \<open>
  In \<^verbatim>\<open>save_renode_code\<close> the file name goes through
  \<^verbatim>\<open>re.sub(r'[^\w\-_]', '_', filename)\<close>. For a \<^verbatim>\<open>str\<close> pattern \<^verbatim>\<open>\w\<close> is the Unicode
  word class: the ASCII letters, digits and the underscore, and, among the code points
  from 128 to 255 that a \<^typ>\<open>char\<close> can hold, the Latin-1 letters and numeric signs
  listed in \<open>word_char\<close>.
\<close>

definition word_char :: "char \<Rightarrow> bool" where
  "word_char c =
     (let n = (of_char c :: nat) in
      (48 \<le> n \<and> n \<le> 57) \<or> (65 \<le> n \<and> n \<le> 90) \<or> n = 95 \<or> (97 \<le> n \<and> n \<le> 122) \<or>
      n = 170 \<or> n = 178 \<or> n = 179 \<or> n = 181 \<or> n = 185 \<or> n = 186 \<or>
      (188 \<le> n \<and> n \<le> 190) \<or> (192 \<le> n \<and> n \<le> 214) \<or> (216 \<le> n \<and> n \<le> 246) \<or>
      (248 \<le> n \<and> n \<le> 255))"

definition safe_char :: "char \<Rightarrow> bool" where
  "safe_char c = (word_char c \<or> c = CHR ''-'' \<or> c = CHR ''_'')"

definition sanitize :: "string \<Rightarrow> string" where
  \<comment> \<open>\<^verbatim>\<open>re.sub(r'[^\w\-_]', '_', filename)\<close>\<close>
  "sanitize filename = map (\<lambda>c. if safe_char c then c else CHR ''_'') filename"

definition extensions :: "string \<Rightarrow> string option" where
  "extensions = [''resc'' \<mapsto> ''.resc'', ''repl'' \<mapsto> ''.repl'', ''cs'' \<mapsto> ''.cs'',
                 ''platform'' \<mapsto> ''.repl'']"

definition extension_of :: "string \<Rightarrow> string" where
  \<comment> \<open>\<^verbatim>\<open>extensions.get(code_type, ".txt")\<close>\<close>
  "extension_of code_type = (case extensions code_type of Some ext \<Rightarrow> ext | None \<Rightarrow> ''.txt'')"

definition renode_code_dir :: "string \<Rightarrow> string \<Rightarrow> ppath" where
  "renode_code_dir category code_type = Path (''generated_renode/'' @ category @ ''/'' @ code_type)"

definition renode_full_filename :: "string \<Rightarrow> string \<Rightarrow> datetime \<Rightarrow> string" where
  "renode_full_filename filename code_type now =
     (let ext = extension_of code_type;
          timestamp = strftime_file now;
          safe_filename = sanitize filename
      in safe_filename @ ''_'' @ timestamp @ ext)"

definition renode_code_path :: "string \<Rightarrow> string \<Rightarrow> string \<Rightarrow> datetime \<Rightarrow> ppath" where
  "renode_code_path filename code_type category now =
     truediv (renode_code_dir category code_type) (renode_full_filename filename code_type now)"

definition save_renode_code ::
    "'fs os \<Rightarrow> string \<Rightarrow> string \<Rightarrow> string \<Rightarrow> string \<Rightarrow> datetime \<Rightarrow> 'fs \<Rightarrow> save_result \<times> 'fs" where
  "save_renode_code os filename code code_type category now fs =
     (let code_dir = renode_code_dir category code_type in
      case os_mkdir os code_dir fs of
        (Some e, fs1) \<Rightarrow> (save_error ''Error saving code: '' e, fs1)
      | (None, fs1) \<Rightarrow>
          (let filepath = renode_code_path filename code_type category now in
           case os_write os filepath code fs1 of
             (Some e, fs2) \<Rightarrow> (save_error ''Error saving code: '' e, fs2)
           | (None, fs2) \<Rightarrow>
               (\<lparr>status = ''success'', filepath = str_path filepath,
                 message = ''Code saved successfully to '' @ str_path filepath\<rparr>, fs2)))"

section \<open>Auxiliary notions for the file system\<close>

text \<open>
  \<open>inside fs dir p\<close>: the file that \<open>p\<close> names lies below the directory that \<open>dir\<close>
  names, after the kernel has resolved both. \<open>dirs_kept\<close> relates two states of the tree
  of which the second has every directory of the first. A path is \<open>normal\<close> when it is
  what parsing produces.
\<close>

definition inside :: "filesystem \<Rightarrow> ppath \<Rightarrow> ppath \<Rightarrow> bool" where
  "inside fs dir p =
     (case walk (nodes fs) (start_of fs dir) (parts dir) of
        Inl e \<Rightarrow> False
      | Inr d \<Rightarrow>
          (case location fs p of
             None \<Rightarrow> False
           | Some loc \<Rightarrow> length d < length loc \<and> take (length d) loc = d))"

definition dirs_kept :: "(string list \<Rightarrow> node option) \<Rightarrow> (string list \<Rightarrow> node option) \<Rightarrow> bool" where
  "dirs_kept ns ns' = (\<forall>k. ns k = Some Dir \<longrightarrow> ns' k = Some Dir)"

definition normal :: "ppath \<Rightarrow> bool" where
  "normal p = ((root p = [] \<or> root p = ''/'' \<or> root p = ''//'') \<and>
               (\<forall>x\<in>set (parts p). is_part x \<and> CHR ''/'' \<notin> set x))"

text \<open>Clock readings and an empty working directory, for the examples.\<close>

definition clock_a :: datetime where
  "clock_a = \<lparr>year = 2024, month = 3, day = 9, hour = 7, minute = 5, second = 1,
     microsecond = 100\<rparr>"

definition clock_b :: datetime where
  "clock_b = \<lparr>year = 2024, month = 3, day = 9, hour = 7, minute = 5, second = 1,
     microsecond = 900000\<rparr>"

definition clock_c :: datetime where
  "clock_c = \<lparr>year = 2024, month = 3, day = 9, hour = 7, minute = 5, second = 2,
     microsecond = 0\<rparr>"

definition fs_empty :: filesystem where
  "fs_empty = \<lparr>cwd = [''app''], nodes = Map.empty\<rparr>"

section \<open>The front-ends: calls and messages\<close>

text \<open>
  A front-end is a script that the page framework runs from top to bottom at every user
  action. A handler of the model takes what the script reads (the widgets' values, the
  disk, the session state) and returns the trace of what it shows and calls, in order,
  with the state it leaves. \<open>St_success\<close>, \<open>St_info\<close>, \<open>St_warning\<close>, \<open>St_error\<close>,
  \<open>St_exception\<close>, \<open>St_markdown\<close> and \<open>St_rerun\<close> are the framework's calls of these
  names (the message texts are given without their leading pictographs);
  \<open>Kb_load k recreate upsert\<close> is \<^verbatim>\<open>k.load(recreate=..., upsert=...)\<close>;
  \<open>Delete_collection\<close> is \<^verbatim>\<open>vector_db.client.delete_collection\<close>; \<open>Rmtree\<close> is
  \<^verbatim>\<open>shutil.rmtree\<close>; \<open>Agent_run a q\<close> is \<^verbatim>\<open>a.run(q)\<close>; \<open>File_write folder file\<close> is
  the \<^verbatim>\<open>open(os.path.join(folder, file), "wb")\<close> with its \<^verbatim>\<open>f.write\<close> of an upload loop.
  The knowledge bases, the vector store and the agents are external services: whether a
  call of them raises, and what an agent answers, are parameters of the handlers.
\<close>

datatype kb = Code_knowledge | Docs_knowledge | Pynvme_knowledge | Renode_knowledge

datatype agent =
    Code_analyzer | Architecture_reviewer | Safety_validator | Review_team
  | Test_orchestrator | Test_generator | Test_validator | Pynvme_expert

datatype event =
    St_success string | St_info string | St_warning string | St_error string
  | St_exception exn | St_markdown string | St_rerun
  | Kb_load kb bool bool
  | Delete_collection string
  | Rmtree string
  | Agent_run agent string
  | File_write string string

fun is_load :: "event \<Rightarrow> bool" where
  "is_load (Kb_load k recreate upsert) = True"
| "is_load ev = False"

fun is_run :: "event \<Rightarrow> bool" where
  "is_run (Agent_run a q) = True"
| "is_run ev = False"

fun is_warning :: "event \<Rightarrow> bool" where
  "is_warning (St_warning m) = True"
| "is_warning ev = False"

fun is_rmtree :: "event \<Rightarrow> bool" where
  "is_rmtree (Rmtree folder) = True"
| "is_rmtree ev = False"

fun is_write :: "event \<Rightarrow> bool" where
  "is_write (File_write folder file) = True"
| "is_write ev = False"



function str_nat :: "nat \<Rightarrow> string" where
  "str_nat n = (if n < 10 then [digit n] else str_nat (n div 10) @ [digit (n mod 10)])"
  by pat_completeness auto
termination
  by (relation "measure id") auto

declare str_nat.simps [simp del]

section \<open>Uploads\<close>

text \<open>
  An upload directory is the list of its files, each a name with its bytes, without two
  entries of one name; \<open>map_of\<close> looks a name up. The uploader hands each file over as
  its name and its buffer. The names are plain file names, so \<^verbatim>\<open>os.path.join\<close> of the
  directory and the name is an entry of the directory.

  \<open>dir_write\<close> is \<^verbatim>\<open>open(file_path, "wb")\<close> with \<^verbatim>\<open>f.write(buffer)\<close>: it replaces the
  content of an existing file and creates a missing one. \<open>store_guarded\<close> is the loop
  body of code-reviewer.py (lines 234-239 and 246-251), pynvme.py (401-404) and renode.py
  (636-639), which writes only \<^verbatim>\<open>if not os.path.exists(file_path)\<close>; \<open>store_always\<close> is
  the loop body of code-analysis.py (115-117), which has no such test. The flag returned
  with the directory says whether the body wrote. A loop returns the writes it made, in
  order, the directory it leaves, and the flag \<^verbatim>\<open>files_updated\<close> (code-reviewer.py
  sets it at every write; the model carries it through the other loops as well).
\<close>

type_synonym directory = "(string \<times> bytes) list"

type_synonym uploaded_file = "string \<times> bytes"

fun dir_write :: "string \<Rightarrow> bytes \<Rightarrow> directory \<Rightarrow> directory" where
  "dir_write file buffer [] = [(file, buffer)]"
| "dir_write file buffer (entry # entries) =
     (if fst entry = file then (file, buffer) # entries
      else entry # dir_write file buffer entries)"

definition store_guarded :: "uploaded_file \<Rightarrow> directory \<Rightarrow> directory \<times> bool" where
  "store_guarded f d =
     (if map_of d (fst f) = None then (dir_write (fst f) (snd f) d, True) else (d, False))"

definition store_always :: "uploaded_file \<Rightarrow> directory \<Rightarrow> directory \<times> bool" where
  "store_always f d = (dir_write (fst f) (snd f) d, True)"

fun guarded_loop ::
    "string \<Rightarrow> uploaded_file list \<Rightarrow> directory \<Rightarrow> bool \<Rightarrow> event list \<times> directory \<times> bool" where
  "guarded_loop folder [] d updated = ([], d, updated)"
| "guarded_loop folder (f # fs) d updated =
     (case store_guarded f d of
        (d', written) \<Rightarrow>
          (case guarded_loop folder fs d' (written \<or> updated) of
             (writes, d'', updated') \<Rightarrow>
               ((if written then [File_write folder (fst f)] else []) @ writes, d'', updated')))"

fun always_loop ::
    "string \<Rightarrow> uploaded_file list \<Rightarrow> directory \<Rightarrow> bool \<Rightarrow> event list \<times> directory \<times> bool" where
  "always_loop folder [] d updated = ([], d, updated)"
| "always_loop folder (f # fs) d updated =
     (case store_always f d of
        (d', written) \<Rightarrow>
          (case always_loop folder fs d' (written \<or> updated) of
             (writes, d'', updated') \<Rightarrow>
               ((if written then [File_write folder (fst f)] else []) @ writes, d'', updated')))"

text \<open>
  The \<^verbatim>\<open>try\<close> block around the loads: the knowledge bases are loaded in order, each with
  \<^verbatim>\<open>recreate=False, upsert=True\<close>; the first load that raises ends the block with the
  error message, and the success message follows the last load.
\<close>

fun try_loads :: "(kb \<Rightarrow> exn option) \<Rightarrow> string \<Rightarrow> string \<Rightarrow> kb list \<Rightarrow> event list" where
  "try_loads load finished failed [] = [St_success finished]"
| "try_loads load finished failed (k # ks) =
     Kb_load k False True #
       (case load k of
          Some e \<Rightarrow> [St_error (failed @ str_exn e)]
        | None \<Rightarrow> try_loads load finished failed ks)"

text \<open>code-analysis.py, lines 113-124: every submitted file is written, then the load.\<close>

definition analysis_upload ::
    "(kb \<Rightarrow> exn option) \<Rightarrow> uploaded_file list \<Rightarrow> directory \<Rightarrow> event list \<times> directory" where
  "analysis_upload load code_files uploaded_code =
     (if code_files \<noteq> [] then
        (case always_loop ''uploaded_code'' code_files uploaded_code False of
           (writes, code_dir, written) \<Rightarrow>
             (writes @
              St_success (''Uploaded '' @ str_nat (length code_files) @ '' code file(s)'') #
              try_loads load ''Knowledge base updated!'' ''Error loading knowledge base: ''
                [Code_knowledge],
              code_dir))
      else ([], uploaded_code))"

text \<open>
  code-reviewer.py, lines 229-267: \<^verbatim>\<open>files_updated\<close> becomes true when a loop wrote a
  file, and the loads run only \<^verbatim>\<open>if files_updated\<close>.
\<close>

definition reviewer_upload ::
    "(kb \<Rightarrow> exn option) \<Rightarrow> uploaded_file list \<Rightarrow> uploaded_file list \<Rightarrow>
     directory \<times> directory \<Rightarrow> event list \<times> (directory \<times> directory)" where
  "reviewer_upload load code_files doc_files disk =
     (case disk of (uploaded_code, uploaded_docs) \<Rightarrow>
      (case (if code_files \<noteq> [] then guarded_loop ''uploaded_code'' code_files uploaded_code False
             else ([], uploaded_code, False)) of
         (code_writes, code_dir, files_updated) \<Rightarrow>
      (case (if doc_files \<noteq> [] then guarded_loop ''uploaded_docs'' doc_files uploaded_docs False
             else ([], uploaded_docs, False)) of
         (doc_writes, docs_dir, doc_updated) \<Rightarrow>
           (code_writes @
            (if code_files \<noteq> [] \<and> files_updated
             then [St_success (''Uploaded '' @ str_nat (length code_files) @ '' code file(s)'')]
             else []) @
            doc_writes @
            (if doc_files \<noteq> [] \<and> doc_updated
             then [St_success (''Uploaded '' @ str_nat (length doc_files) @ '' document(s)'')]
             else []) @
            (if files_updated \<or> doc_updated
             then try_loads load ''Knowledge base updated!'' ''Error loading knowledge base: ''
                    ((if code_files \<noteq> [] then [Code_knowledge] else []) @
                     (if doc_files \<noteq> [] then [Docs_knowledge] else []))
             else []),
            (code_dir, docs_dir)))))"

text \<open>
  pynvme.py, lines 398-413, and renode.py, lines 633-648, which differ in the names only:
  the files are stored with the guard, and the load runs when the button
  \<^verbatim>\<open>Load Documentation\<close>, shown while files are submitted, has been pressed.
\<close>

definition docs_upload ::
    "string \<Rightarrow> kb \<Rightarrow> (kb \<Rightarrow> exn option) \<Rightarrow> uploaded_file list \<Rightarrow> bool \<Rightarrow> directory \<Rightarrow>
     event list \<times> directory" where
  "docs_upload folder knowledge load doc_files load_pressed docs =
     (if doc_files \<noteq> [] then
        (case guarded_loop folder doc_files docs False of
           (writes, docs_dir, written) \<Rightarrow>
             (writes @
              (if load_pressed
               then try_loads load ''Documentation loaded!'' ''Error loading documentation: ''
                      [knowledge]
               else []),
              docs_dir))
      else ([], docs))"

definition pynvme_upload ::
    "(kb \<Rightarrow> exn option) \<Rightarrow> uploaded_file list \<Rightarrow> bool \<Rightarrow> directory \<Rightarrow> event list \<times> directory" where
  "pynvme_upload = docs_upload ''pynvme_docs'' Pynvme_knowledge"

definition renode_upload ::
    "(kb \<Rightarrow> exn option) \<Rightarrow> uploaded_file list \<Rightarrow> bool \<Rightarrow> directory \<Rightarrow> event list \<times> directory" where
  "renode_upload = docs_upload ''renode_docs'' Renode_knowledge"

section \<open>The vector index, from the specification\<close>

text \<open>
  Modelled from the spec: the vector index and the knowledge bases' \<^verbatim>\<open>load\<close> are the
  phidata and Chroma libraries', whose code is not in the repository. The specification
  (sections 4.2 and 6 and the glossary) gives the index the operations
  \<^verbatim>\<open>upsert(collection, id, vector, metadata)\<close> and \<^verbatim>\<open>deleteCollection(collection)\<close>,
  calls an upsert an insert-or-update that drops no other entry, and says of a load with
  \<^verbatim>\<open>recreate=false, upsert=true\<close> that it never drops the index and only updates it.

  An index maps the name of a collection to its entries, each an id with its text (the
  vector is a function of the text and is left out). \<open>upsert_chunk\<close> replaces the entry
  of the same id, in place, or adds the entry at the end. \<open>kb_load\<close> with \<open>recreate\<close>
  starts from an empty collection; without \<open>upsert\<close> it adds every chunk as a new entry.
  \<open>run_loads\<close> carries an index through a trace: each load of a knowledge base \<open>k\<close>
  presents to the collection \<open>coll k\<close> the chunks that the reader makes of the files of
  its directory at that moment, which are the next list of \<open>batches\<close> (no chunk when
  the lists are used up); a deletion removes the collection, and the other events leave
  the index alone.
\<close>

type_synonym chunk = "string \<times> string"


fun upsert_chunk :: "chunk \<Rightarrow> chunk list \<Rightarrow> chunk list" where
  "upsert_chunk c [] = [c]"
| "upsert_chunk c (e # es) = (if fst e = fst c then c # es else e # upsert_chunk c es)"








definition refresh :: "chunk list \<Rightarrow> chunk \<Rightarrow> chunk" where
  "refresh docs e = (case map_of (rev docs) (fst e) of None \<Rightarrow> e | Some t \<Rightarrow> (fst e, t))"


section \<open>Clearing the knowledge base\<close>

text \<open>
  The handlers of the button \<^verbatim>\<open>Clear Knowledge Base\<close> of code-reviewer.py (lines 185-214),
  pynvme.py (415-433) and renode.py (650-668). What the handler meets is the environment
  \<open>clear_env\<close>: whether \<^verbatim>\<open>delete_collection\<close> raises, which folders exist, and of what
  kind the tree below a folder is. A \<open>Plain\<close> tree can be removed; a \<open>Read_only\<close> tree
  can be removed once its entries have been made writable; a \<open>Stubborn\<close> tree cannot be
  removed; on a \<open>Faulty\<close> tree \<^verbatim>\<open>rmtree\<close> itself raises an exception that its error
  handling does not take.

  \<^verbatim>\<open>shutil.rmtree(folder, ignore_errors=True)\<close> (pynvme.py, renode.py) returns normally
  whatever happens to the entries. \<^verbatim>\<open>shutil.rmtree(folder, onerror=remove_readonly)\<close>
  (code-reviewer.py) hands each failure to \<^verbatim>\<open>remove_readonly\<close> (lines 158-163), which
  makes the entry writable and tries again, and passes over an entry that fails again.
  The result of either is an exception, or whether the folder is gone.
\<close>

datatype tree = Plain | Read_only | Stubborn | Faulty exn

record clear_env =
  delete_collection :: "string \<Rightarrow> exn option"
  path_exists :: "string \<Rightarrow> bool"
  tree_at :: "string \<Rightarrow> tree"

fun rmtree_ignore_errors :: "tree \<Rightarrow> exn + bool" where
  "rmtree_ignore_errors Plain = Inr True"
| "rmtree_ignore_errors Read_only = Inr False"
| "rmtree_ignore_errors Stubborn = Inr False"
| "rmtree_ignore_errors (Faulty e) = Inl e"

fun rmtree_remove_readonly :: "tree \<Rightarrow> exn + bool" where
  "rmtree_remove_readonly Plain = Inr True"
| "rmtree_remove_readonly Read_only = Inr True"
| "rmtree_remove_readonly Stubborn = Inr False"
| "rmtree_remove_readonly (Faulty e) = Inl e"

text \<open>
  The loop over the folders, with its own \<^verbatim>\<open>try\<close> around each \<^verbatim>\<open>rmtree\<close>. It returns the
  trace and which folders exist afterwards.
\<close>

fun clear_folders ::
    "(tree \<Rightarrow> exn + bool) \<Rightarrow> (string \<Rightarrow> tree) \<Rightarrow> string list \<Rightarrow> (string \<Rightarrow> bool) \<Rightarrow>
     event list \<times> (string \<Rightarrow> bool)" where
  "clear_folders rmtree trees [] present = ([], present)"
| "clear_folders rmtree trees (folder # folders) present =
     (if present folder then
        (case rmtree (trees folder) of
           Inr gone \<Rightarrow>
             (case clear_folders rmtree trees folders (present(folder := \<not> gone)) of
                (evs, present') \<Rightarrow>
                  (Rmtree folder # St_info (''Deleted '' @ folder) # evs, present'))
         | Inl e \<Rightarrow>
             (case clear_folders rmtree trees folders present of
                (evs, present') \<Rightarrow>
                  (Rmtree folder #
                   St_warning (''Could not fully delete '' @ folder @ '': '' @ str_exn e) # evs,
                   present')))
      else clear_folders rmtree trees folders present)"

text \<open>
  code-reviewer.py: the deletion of the collection has a \<^verbatim>\<open>try\<close> of its own. The state
  returned is the folders that exist and the session's \<^verbatim>\<open>uploader_key\<close>.
\<close>

definition reviewer_clear :: "clear_env \<Rightarrow> nat \<Rightarrow> event list \<times> (string \<Rightarrow> bool) \<times> nat" where
  "reviewer_clear env uploader_key =
     (case clear_folders rmtree_remove_readonly (tree_at env)
             [''uploaded_code'', ''uploaded_docs'', ''./chroma_db''] (path_exists env) of
        (evs, present') \<Rightarrow>
          (Delete_collection ''code_review_docs'' #
           (case delete_collection env ''code_review_docs'' of
              None \<Rightarrow> St_info ''ChromaDB collection deleted''
            | Some e \<Rightarrow> St_warning (''Could not delete collection: '' @ str_exn e)) #
           evs @ [St_success ''Knowledge base cleared!'', St_rerun],
           present', uploader_key + 1))"

text \<open>
  pynvme.py and renode.py: the deletion of the collection stands directly in the outer
  \<^verbatim>\<open>try\<close>, whose \<^verbatim>\<open>except\<close> branch reports the error and ends the handler.
\<close>

definition docs_clear ::
    "string \<Rightarrow> string list \<Rightarrow> clear_env \<Rightarrow> nat \<Rightarrow> event list \<times> (string \<Rightarrow> bool) \<times> nat" where
  "docs_clear collection folders env uploader_key =
     (case delete_collection env collection of
        Some e \<Rightarrow>
          ([Delete_collection collection,
            St_error (''Error clearing knowledge base: '' @ str_exn e)],
           path_exists env, uploader_key)
      | None \<Rightarrow>
          (case clear_folders rmtree_ignore_errors (tree_at env) folders (path_exists env) of
             (evs, present') \<Rightarrow>
               (Delete_collection collection # evs @
                [St_success ''Knowledge base cleared!'', St_rerun],
                present', uploader_key + 1)))"

definition pynvme_clear :: "clear_env \<Rightarrow> nat \<Rightarrow> event list \<times> (string \<Rightarrow> bool) \<times> nat" where
  "pynvme_clear =
     docs_clear ''pynvme_docs'' [''pynvme_docs'', ''./pynvme_chroma_db'', ''generated_tests'']"

definition renode_clear :: "clear_env \<Rightarrow> nat \<Rightarrow> event list \<times> (string \<Rightarrow> bool) \<times> nat" where
  "renode_clear =
     docs_clear ''renode_docs'' [''renode_docs'', ''./renode_chroma_db'', ''generated_renode'']"

definition absent_collection :: "clear_env" where
  \<comment> \<open>an example: the folders exist with plain trees, the collection does not\<close>
  "absent_collection =
     \<lparr>delete_collection = (\<lambda>c. Some (Exn ''ValueError'' (''Collection '' @ c @ '' does not exist.''))),
      path_exists = (\<lambda>folder. True), tree_at = (\<lambda>folder. Plain)\<rparr>"

section \<open>Asking an agent\<close>

text \<open>
  The handlers of the buttons that send the user's text to an agent. \<open>run a q\<close> is what
  \<^verbatim>\<open>a.run(q)\<close> does: it raises (\<open>Inl\<close>) or returns a response with the content
  \<open>Inr content\<close>. The session's history is a list of dictionaries, each a list of keys
  with their values, in the order of the dictionary literal of the source.

  \<open>code_count\<close> is \<^verbatim>\<open>len(list(Path("uploaded_code").glob("*.[ch]")))\<close>: the number of
  files whose name ends in \<^verbatim>\<open>.c\<close> or \<^verbatim>\<open>.h\<close>. The folder exists when a handler runs,
  since the script makes it at every run before it reaches the buttons.
\<close>

type_synonym entry = "(string \<times> string) list"

definition ends_with :: "string \<Rightarrow> string \<Rightarrow> bool" where
  "ends_with suffix s = (length suffix \<le> length s \<and> drop (length s - length suffix) s = suffix)"

definition glob_ch :: "string \<Rightarrow> bool" where
  "glob_ch file = (ends_with ''.c'' file \<or> ends_with ''.h'' file)"

definition code_count :: "directory \<Rightarrow> nat" where
  "code_count uploaded_code = length (filter (\<lambda>e. glob_ch (fst e)) uploaded_code)"

text \<open>code-analysis.py, lines 133-151: the button \<^verbatim>\<open>Analyze Code\<close>.\<close>

definition analysis_analyze ::
    "(agent \<Rightarrow> string \<Rightarrow> exn + string) \<Rightarrow> directory \<Rightarrow> string \<Rightarrow> entry list \<Rightarrow>
     event list \<times> entry list" where
  "analysis_analyze run uploaded_code analysis_query review_history =
     (if code_count uploaded_code = 0
      then ([St_warning ''Please upload code files first!''], review_history)
      else if analysis_query = []
      then ([St_warning ''Please enter an analysis request''], review_history)
      else (case run Code_analyzer analysis_query of
              Inr content \<Rightarrow>
                ([Agent_run Code_analyzer analysis_query, St_markdown content],
                 review_history @ [[(''query'', analysis_query), (''response'', content)]])
            | Inl e \<Rightarrow>
                ([Agent_run Code_analyzer analysis_query, St_error (''Error: '' @ str_exn e),
                  St_exception e],
                 review_history)))"

text \<open>
  code-reviewer.py, lines 277-409: the four tabs have one handler each, of the same
  shape. They differ in the agent, in the \<^verbatim>\<open>type\<close> written to the history, and in the
  texts; the first tab also announces the end of the review.
\<close>

datatype tab = Comprehensive | Code_analysis | Architecture | Safety

fun tab_agent :: "tab \<Rightarrow> agent" where
  "tab_agent Comprehensive = Review_team"
| "tab_agent Code_analysis = Code_analyzer"
| "tab_agent Architecture = Architecture_reviewer"
| "tab_agent Safety = Safety_validator"

fun tab_type :: "tab \<Rightarrow> string" where
  "tab_type Comprehensive = ''Comprehensive''"
| "tab_type Code_analysis = ''Code Analysis''"
| "tab_type Architecture = ''Architecture''"
| "tab_type Safety = ''Safety''"

fun tab_prompt :: "tab \<Rightarrow> string" where
  "tab_prompt Comprehensive = ''Please enter a review request''"
| "tab_prompt Code_analysis = ''Please enter an analysis request''"
| "tab_prompt Architecture = ''Please enter an architecture review request''"
| "tab_prompt Safety = ''Please enter a safety validation request''"

fun tab_done :: "tab \<Rightarrow> event list" where
  "tab_done Comprehensive = [St_success ''Review Complete!'']"
| "tab_done t = []"

fun tab_failed :: "tab \<Rightarrow> string" where
  "tab_failed Comprehensive = ''Error during review: ''"
| "tab_failed t = ''Error: ''"

definition reviewer_tab ::
    "tab \<Rightarrow> (agent \<Rightarrow> string \<Rightarrow> exn + string) \<Rightarrow> directory \<Rightarrow> string \<Rightarrow> entry list \<Rightarrow>
     event list \<times> entry list" where
  "reviewer_tab t run uploaded_code review_query review_history =
     (if review_query = []
      then ([St_warning (tab_prompt t)], review_history)
      else if code_count uploaded_code = 0
      then ([St_warning ''Please upload code files first!''], review_history)
      else (case run (tab_agent t) review_query of
              Inr content \<Rightarrow>
                (Agent_run (tab_agent t) review_query # tab_done t @ [St_markdown content],
                 review_history @
                 [[(''type'', tab_type t), (''query'', review_query), (''response'', content)]])
            | Inl e \<Rightarrow>
                ([Agent_run (tab_agent t) review_query, St_error (tab_failed t @ str_exn e),
                  St_exception e],
                 review_history)))"

text \<open>
  pynvme.py, lines 481-622: the tabs \<^verbatim>\<open>Orchestrated Generation\<close>, \<^verbatim>\<open>Generate Tests\<close>,
  \<^verbatim>\<open>Validate Tests\<close> and \<^verbatim>\<open>PyNVMe Expert\<close>. None of their handlers reads the folder
  \<^verbatim>\<open>pynvme_docs\<close>; the argument \<open>pynvme_docs\<close> of the model stands for the state of the
  folder at the click. The history's time stamp is
  \<^verbatim>\<open>datetime.now().strftime("%Y-%m-%d %H:%M:%S")\<close>, read after the agent has answered.
\<close>

definition strftime_log :: "datetime \<Rightarrow> string" where
  "strftime_log d =
     pad4 (year d) @ ''-'' @ pad2 (month d) @ ''-'' @ pad2 (day d) @ '' '' @
     pad2 (hour d) @ '':'' @ pad2 (minute d) @ '':'' @ pad2 (second d)"

definition generation_entry ::
    "datetime \<Rightarrow> string \<Rightarrow> string \<Rightarrow> string \<Rightarrow> string \<Rightarrow> entry" where
  "generation_entry now type requirement category response =
     [(''timestamp'', strftime_log now), (''type'', type), (''requirement'', requirement),
      (''category'', category), (''response'', response)]"

definition enhanced_query :: "string \<Rightarrow> string \<Rightarrow> string \<Rightarrow> string" where
  "enhanced_query test_requirement test_category validation_level =
     (let indent = replicate 20 CHR '' '' in
      ''\<newline>'' @
      indent @ ''Generate and validate a PyNVMe test with these requirements:\<newline>'' @
      indent @ test_requirement @ ''\<newline>'' @
      indent @ ''\<newline>'' @
      indent @ ''Category: '' @ test_category @ ''\<newline>'' @
      indent @ ''Validation Level: '' @ validation_level @ ''\<newline>'' @
      indent @ ''\<newline>'' @
      indent @ ''Workflow:\<newline>'' @
      indent @ ''1. Generate a complete test case following PyNVMe best practices\<newline>'' @
      indent @ ''2. Validate the generated test thoroughly\<newline>'' @
      indent @ ''3. If issues found, regenerate and validate again\<newline>'' @
      indent @ ''4. Save the final validated test\<newline>'' @
      indent @ ''5. Provide a summary of the generation and validation process\<newline>'' @
      indent)"

definition pynvme_orchestrate ::
    "(agent \<Rightarrow> string \<Rightarrow> exn + string) \<Rightarrow> datetime \<Rightarrow> directory \<Rightarrow> string \<Rightarrow> string \<Rightarrow>
     string \<Rightarrow> entry list \<Rightarrow> event list \<times> entry list" where
  "pynvme_orchestrate run now pynvme_docs test_requirement test_category validation_level
       generation_history =
     (if test_requirement = []
      then ([St_warning ''Please describe the test requirement''], generation_history)
      else (case run Test_orchestrator
                   (enhanced_query test_requirement test_category validation_level) of
              Inr content \<Rightarrow>
                ([Agent_run Test_orchestrator
                    (enhanced_query test_requirement test_category validation_level),
                  St_success ''Test Generated and Validated!'', St_markdown content],
                 generation_history @
                 [generation_entry now ''Orchestrated'' test_requirement test_category content])
            | Inl e \<Rightarrow>
                ([Agent_run Test_orchestrator
                    (enhanced_query test_requirement test_category validation_level),
                  St_error (''Error: '' @ str_exn e), St_exception e],
                 generation_history)))"

definition pynvme_generate ::
    "(agent \<Rightarrow> string \<Rightarrow> exn + string) \<Rightarrow> datetime \<Rightarrow> directory \<Rightarrow> string \<Rightarrow> string \<Rightarrow>
     entry list \<Rightarrow> event list \<times> entry list" where
  "pynvme_generate run now pynvme_docs gen_query gen_category generation_history =
     (if gen_query = []
      then ([St_warning ''Please enter test specification''], generation_history)
      else (case run Test_generator (gen_query @ ''\<newline>Category: '' @ gen_category) of
              Inr content \<Rightarrow>
                ([Agent_run Test_generator (gen_query @ ''\<newline>Category: '' @ gen_category),
                  St_success ''Test Generated!'', St_markdown content],
                 generation_history @
                 [generation_entry now ''Generation'' gen_query gen_category content])
            | Inl e \<Rightarrow>
                ([Agent_run Test_generator (gen_query @ ''\<newline>Category: '' @ gen_category),
                  St_error (''Error: '' @ str_exn e)],
                 generation_history)))"

definition validation_request :: "string \<Rightarrow> string" where
  "validation_request test_code_input =
     ''Validate this PyNVMe test and provide improvement suggestions:\<newline>\<newline>'' @
     test_code_input"

definition pynvme_validate ::
    "(agent \<Rightarrow> string \<Rightarrow> exn + string) \<Rightarrow> datetime \<Rightarrow> directory \<Rightarrow> string \<Rightarrow>
     entry list \<Rightarrow> event list \<times> entry list" where
  "pynvme_validate run now pynvme_docs test_code_input generation_history =
     (if test_code_input = []
      then ([St_warning ''Please paste test code''], generation_history)
      else (case run Test_validator (validation_request test_code_input) of
              Inr content \<Rightarrow>
                ([Agent_run Test_validator (validation_request test_code_input),
                  St_markdown content],
                 generation_history @
                 [generation_entry now ''Validation'' ''Code validation'' ''validation'' content])
            | Inl e \<Rightarrow>
                ([Agent_run Test_validator (validation_request test_code_input),
                  St_error (''Error: '' @ str_exn e)],
                 generation_history)))"

definition pynvme_expert ::
    "(agent \<Rightarrow> string \<Rightarrow> exn + string) \<Rightarrow> directory \<Rightarrow> string \<Rightarrow> entry list \<Rightarrow>
     event list \<times> entry list" where
  "pynvme_expert run pynvme_docs expert_query generation_history =
     (if expert_query = []
      then ([St_warning ''Please enter a question''], generation_history)
      else (case run Pynvme_expert expert_query of
              Inr content \<Rightarrow>
                ([Agent_run Pynvme_expert expert_query, St_markdown content],
                 generation_history)
            | Inl e \<Rightarrow>
                ([Agent_run Pynvme_expert expert_query, St_error (''Error: '' @ str_exn e)],
                 generation_history)))"

definition answers :: "string \<Rightarrow> agent \<Rightarrow> string \<Rightarrow> exn + string" where
  \<comment> \<open>an example: every agent answers with the same text\<close>
  "answers content a q = Inr content"

definition fails :: "exn \<Rightarrow> agent \<Rightarrow> string \<Rightarrow> exn + string" where
  \<comment> \<open>an example: every agent raises\<close>
  "fails e a q = Inl e"

section \<open>Auxiliary notions for the front-ends\<close>

text \<open>
  What the loop over the folders shows for one folder that exists, and the warning among
  it; an index with one chunk, the two chunks of a directory of two files and the text
  of each id, for the examples.
\<close>

definition folder_events :: "(tree \<Rightarrow> exn + bool) \<Rightarrow> (string \<Rightarrow> tree) \<Rightarrow> string \<Rightarrow> event list" where
  "folder_events rm trees folder =
     (case rm (trees folder) of
        Inr gone \<Rightarrow> [Rmtree folder, St_info (''Deleted '' @ folder)]
      | Inl e \<Rightarrow>
          [Rmtree folder, St_warning (''Could not fully delete '' @ folder @ '': '' @ str_exn e)])"

definition folder_warning :: "(tree \<Rightarrow> exn + bool) \<Rightarrow> (string \<Rightarrow> tree) \<Rightarrow> string \<Rightarrow> event list" where
  "folder_warning rm trees folder =
     (case rm (trees folder) of
        Inl e \<Rightarrow> [St_warning (''Could not fully delete '' @ folder @ '': '' @ str_exn e)]
      | Inr gone \<Rightarrow> [])"




section \<open>Timestamps\<close>

lemma of_char_digit: "a < 10 \<Longrightarrow> of_char (digit a) = 48 + a"
  by (simp add: digit_def)

lemma digit_not_slash: "a < 10 \<Longrightarrow> digit a \<noteq> CHR ''/''"
proof
  assume a: "a < 10" and "digit a = CHR ''/''"
  then have "(of_char (digit a) :: nat) = of_char CHR ''/''" by simp
  with a show False by (simp add: of_char_digit)
qed

lemma digit_inj: "a < 10 \<Longrightarrow> b < 10 \<Longrightarrow> digit a = digit b \<Longrightarrow> a = b"
proof -
  assume a: "a < 10" and b: "b < 10" and "digit a = digit b"
  then have "(of_char (digit a) :: nat) = of_char (digit b)" by simp
  with a b show ?thesis by (simp add: of_char_digit)
qed

lemma div_mod_10_eq: "a div 10 = b div 10 \<Longrightarrow> a mod 10 = b mod 10 \<Longrightarrow> a = b" for a b :: nat
  by (metis mult_div_mod_eq)

lemma pad2_inj: "m < 100 \<Longrightarrow> n < 100 \<Longrightarrow> pad2 m = pad2 n \<Longrightarrow> m = n"
proof -
  assume m: "m < 100" and n: "n < 100" and e: "pad2 m = pad2 n"
  from e have "digit (m div 10 mod 10) = digit (n div 10 mod 10)" and "digit (m mod 10) = digit (n mod 10)"
    by (simp_all add: pad2_def)
  then have "m div 10 mod 10 = n div 10 mod 10" and 0: "m mod 10 = n mod 10"
    by (auto intro: digit_inj)
  moreover from m n have "m div 10 < 10" "n div 10 < 10" by simp_all
  ultimately have "m div 10 = n div 10" by simp
  then show ?thesis using 0 by (rule div_mod_10_eq)
qed


lemma div_1000: "m div 1000 = m div 100 div 10" for m :: nat
  using div_mult2_eq[of m 100 10] by simp

lemma div_100: "m div 100 = m div 10 div 10" for m :: nat
  using div_mult2_eq[of m 10 10] by simp

lemma pad4_inj: "m < 10000 \<Longrightarrow> n < 10000 \<Longrightarrow> pad4 m = pad4 n \<Longrightarrow> m = n"
proof -
  assume m: "m < 10000" and n: "n < 10000" and e: "pad4 m = pad4 n"
  from e have "digit (m div 1000 mod 10) = digit (n div 1000 mod 10)"
    and "digit (m div 100 mod 10) = digit (n div 100 mod 10)"
    and "digit (m div 10 mod 10) = digit (n div 10 mod 10)" and "digit (m mod 10) = digit (n mod 10)"
    by (simp_all add: pad4_def)
  then have 3: "m div 1000 mod 10 = n div 1000 mod 10" and 2: "m div 100 mod 10 = n div 100 mod 10"
    and 1: "m div 10 mod 10 = n div 10 mod 10" and 0: "m mod 10 = n mod 10"
    by (auto intro: digit_inj)
  from m have "m div 1000 < 10" by (intro less_mult_imp_div_less) simp
  moreover from n have "n div 1000 < 10" by (intro less_mult_imp_div_less) simp
  ultimately have "m div 1000 = n div 1000" using 3 by simp
  then have "m div 100 div 10 = n div 100 div 10" by (simp only: div_1000)
  then have "m div 100 = n div 100" using 2 by (rule div_mod_10_eq)
  then have "m div 10 div 10 = n div 10 div 10" by (simp only: div_100)
  then have "m div 10 = n div 10" using 1 by (rule div_mod_10_eq)
  then show ?thesis using 0 by (rule div_mod_10_eq)
qed

lemma length_pad2: "length (pad2 n) = 2"
  by (simp add: pad2_def)

lemma length_pad4: "length (pad4 n) = 4"
  by (simp add: pad4_def)

lemma strftime_file_inj:
  assumes "valid_datetime t1" "valid_datetime t2" "strftime_file t1 = strftime_file t2"
  shows "same_second t1 t2"
proof -
  from assms(3) have "pad4 (year t1) = pad4 (year t2)" "pad2 (month t1) = pad2 (month t2)"
    "pad2 (day t1) = pad2 (day t2)" "pad2 (hour t1) = pad2 (hour t2)"
    "pad2 (minute t1) = pad2 (minute t2)" "pad2 (second t1) = pad2 (second t2)"
    by (simp_all add: strftime_file_def length_pad2 length_pad4)
  moreover from assms(1,2) have "year t1 < 10000" "year t2 < 10000" "month t1 < 100" "month t2 < 100"
    "day t1 < 100" "day t2 < 100" "hour t1 < 100" "hour t2 < 100" "minute t1 < 100" "minute t2 < 100"
    "second t1 < 100" "second t2 < 100"
    by (simp_all add: valid_datetime_def)
  ultimately show ?thesis
    unfolding same_second_def by (blast intro: pad2_inj pad4_inj)
qed

lemma same_second_strftime: "same_second t1 t2 \<Longrightarrow> strftime_file t1 = strftime_file t2"
  by (simp add: same_second_def strftime_file_def)

lemma strftime_file_no_slash: "CHR ''/'' \<notin> set (strftime_file t)"
  by (simp add: strftime_file_def pad2_def pad4_def digit_not_slash[symmetric])

section \<open>Splitting and joining paths\<close>

lemma split_sep_nonempty: "split_sep sep s \<noteq> []"
  by (induction s) (auto split: list.splits)

lemma split_sep_no_sep: "sep \<notin> set s \<Longrightarrow> split_sep sep s = [s]"
  by (induction s) auto

lemma split_sep_pieces: "p \<in> set (split_sep sep s) \<Longrightarrow> sep \<notin> set p"
  by (induction s arbitrary: p) (auto split: if_splits list.splits)

lemma split_sep_append:
  "sep \<notin> set suf \<Longrightarrow>
   split_sep sep (s @ suf) = butlast (split_sep sep s) @ [last (split_sep sep s) @ suf]"
proof (induction s)
  case Nil
  then show ?case by (simp add: split_sep_no_sep)
next
  case (Cons c cs)
  obtain p ps where e: "split_sep sep cs = p # ps"
    using split_sep_nonempty[of sep cs] by (cases "split_sep sep cs") auto
  show ?case
  proof (cases ps)
    case Nil
    with e Cons show ?thesis by simp
  next
    case (Cons q qs)
    with e Cons.IH Cons.prems show ?thesis by simp
  qed
qed

lemma split_sep_cons_piece:
  "sep \<notin> set a \<Longrightarrow> split_sep sep (a @ sep # b) = a # split_sep sep b"
  by (induction a) auto

lemma split_join:
  "ps \<noteq> [] \<Longrightarrow> \<forall>p\<in>set ps. sep \<notin> set p \<Longrightarrow> split_sep sep (join_sep [sep] ps) = ps"
proof (induction "[sep]" ps rule: join_sep.induct)
  case 1
  then show ?case by simp
next
  case (2 p)
  then show ?case by (simp add: split_sep_no_sep)
next
  case (3 p q ps)
  then show ?case by (simp add: split_sep_cons_piece)
qed

lemma root_of_cases: "root_of s = [] \<or> root_of s = ''/'' \<or> root_of s = ''//''"
  by (simp add: root_of_def)

lemma normal_Path: "normal (Path s)"
  using root_of_cases[of s] by (auto simp: normal_def Path_def dest: split_sep_pieces)

lemma normal_truediv: "normal p \<Longrightarrow> normal (truediv p s)"
  using normal_Path[of s] by (auto simp: truediv_def normal_def)

lemma join_sep_hd: "ps \<noteq> [] \<Longrightarrow> hd ps \<noteq> [] \<Longrightarrow> join_sep sep ps \<noteq> [] \<and> hd (join_sep sep ps) = hd (hd ps)"
  by (induction sep ps rule: join_sep.induct) auto

lemma filter_is_part_id: "\<forall>x\<in>set ps. is_part x \<Longrightarrow> filter is_part ps = ps"
  by (induction ps) auto

lemma Path_str_path:
  assumes "normal p"
  shows "Path (str_path p) = p"
proof (cases "parts p = []")
  case True
  with assms show ?thesis
    by (auto simp: normal_def str_path_def Path_def root_of_def is_part_def)
next
  case False
  let ?j = "join_sep ''/'' (parts p)"
  from assms have ps: "\<forall>x\<in>set (parts p). is_part x" and ns: "\<forall>x\<in>set (parts p). CHR ''/'' \<notin> set x"
    by (auto simp: normal_def)
  from False ps have h: "hd (parts p) \<noteq> []" by (cases "parts p") (auto simp: is_part_def)
  from False ns have "CHR ''/'' \<notin> set (hd (parts p))" by (cases "parts p") auto
  with h have "hd (hd (parts p)) \<noteq> CHR ''/''" by (cases "hd (parts p)") auto
  moreover from join_sep_hd[OF False h, of "''/''"]
  have "?j \<noteq> []" and "hd ?j = hd (hd (parts p))" by auto
  ultimately obtain c cs where j: "?j = c # cs" and c: "c \<noteq> CHR ''/''"
    by (cases ?j) auto
  have sp: "split_sep CHR ''/'' ?j = parts p" using split_join[OF False ns] by simp
  have fp: "filter is_part (parts p) = parts p" using ps by (rule filter_is_part_id)
  from assms consider "root p = []" | "root p = ''/''" | "root p = ''//''" by (auto simp: normal_def)
  then show ?thesis
  proof cases
    case 1
    have "Path ?j = p" using sp fp 1 j c by (simp add: Path_def root_of_def)
    with 1 False show ?thesis by (simp add: str_path_def)
  next
    case 2
    have "split_sep CHR ''/'' (''/'' @ ?j) = [] # parts p" using sp by simp
    then have "Path (''/'' @ ?j) = p" using fp 2 j c by (simp add: Path_def root_of_def is_part_def)
    with 2 False show ?thesis by (simp add: str_path_def)
  next
    case 3
    have "split_sep CHR ''/'' (''//'' @ ?j) = [] # [] # parts p" using sp by simp
    then have "Path (''//'' @ ?j) = p" using fp 3 j c by (simp add: Path_def root_of_def is_part_def)
    with 3 False show ?thesis by (simp add: str_path_def)
  qed
qed

section \<open>The file system keeps what it has\<close>

lemma node_at_dirs_kept: "dirs_kept ns ns' \<Longrightarrow> node_at ns k = Some Dir \<Longrightarrow> node_at ns' k = Some Dir"
  by (auto simp: dirs_kept_def node_at_def split: if_splits)

lemma walk_dirs_kept:
  "walk ns cur cs = Inr d \<Longrightarrow> dirs_kept ns ns' \<Longrightarrow> walk ns' cur cs = Inr d"
proof (induction cs arbitrary: cur)
  case Nil
  then show ?case by simp
next
  case (Cons c cs)
  show ?case
  proof (cases "c = ''..''")
    case True
    with Cons show ?thesis by simp
  next
    case False
    with Cons.prems(1) have n: "node_at ns (cur @ [c]) = Some Dir" and w: "walk ns (cur @ [c]) cs = Inr d"
      by (auto split: option.splits node.splits)
    from n Cons.prems(2) have "node_at ns' (cur @ [c]) = Some Dir" by (rule node_at_dirs_kept[rotated])
    with False w Cons.IH Cons.prems(2) show ?thesis by simp
  qed
qed

lemma mkdirs_extends: "mkdirs ns cur cs = (r, ns') \<Longrightarrow> ns \<subseteq>\<^sub>m ns'"
proof (induction cs arbitrary: ns cur)
  case Nil
  then show ?case by simp
next
  case (Cons c cs)
  show ?case
  proof (cases "c = ''..''")
    case True
    with Cons show ?thesis by simp
  next
    case False
    show ?thesis
    proof (cases "node_at ns (cur @ [c])")
      case None
      then have "ns (cur @ [c]) = None" by (auto simp: node_at_def split: if_splits)
      then have 1: "ns \<subseteq>\<^sub>m ns((cur @ [c]) \<mapsto> Dir)" by (auto simp: map_le_def)
      from None False Cons.prems have "mkdirs (ns((cur @ [c]) \<mapsto> Dir)) (cur @ [c]) cs = (r, ns')" by simp
      then have "ns((cur @ [c]) \<mapsto> Dir) \<subseteq>\<^sub>m ns'" by (rule Cons.IH)
      with 1 show ?thesis by (rule map_le_trans)
    next
      case (Some n)
      with False Cons show ?thesis by (cases n) auto
    qed
  qed
qed

lemma map_le_dirs_kept: "ns \<subseteq>\<^sub>m ns' \<Longrightarrow> dirs_kept ns ns'"
  by (auto simp: dirs_kept_def map_le_def dom_def)

lemma posix_write_ok:
  assumes "posix_write p t fs = (None, fs')"
  shows "\<exists>loc. location fs p = Some loc \<and> node_at (nodes fs) loc \<noteq> Some Dir \<and>
           fs' = fs\<lparr>nodes := (nodes fs)(loc \<mapsto> File t)\<rparr>"
  using assms
  by (auto simp: posix_write_def location_def split: if_splits sum.splits option.splits node.splits)

lemma location_dirs_kept:
  "location fs p = Some loc \<Longrightarrow> dirs_kept (nodes fs) (nodes fs') \<Longrightarrow> cwd fs' = cwd fs \<Longrightarrow>
   location fs' p = Some loc"
  by (auto simp: location_def start_of_def split: if_splits sum.splits dest: walk_dirs_kept)

lemma location_nonempty: "location fs p = Some loc \<Longrightarrow> loc \<noteq> []"
  by (auto simp: location_def split: if_splits sum.splits)

lemma posix_write_read:
  assumes "posix_write p t fs = (None, fs')"
  shows "read_text fs' p = Inr t"
proof -
  from posix_write_ok[OF assms] obtain loc where l: "location fs p = Some loc"
    and nd: "node_at (nodes fs) loc \<noteq> Some Dir"
    and fs': "fs' = fs\<lparr>nodes := (nodes fs)(loc \<mapsto> File t)\<rparr>" by blast
  have "nodes fs loc \<noteq> Some Dir" using nd location_nonempty[OF l] by (simp add: node_at_def)
  then have "dirs_kept (nodes fs) (nodes fs')" by (auto simp: fs' dirs_kept_def)
  moreover have "cwd fs' = cwd fs" by (simp add: fs')
  ultimately have "location fs' p = Some loc" using l by (auto intro: location_dirs_kept)
  moreover have "node_at (nodes fs') loc = Some (File t)"
    using location_nonempty[OF l] by (simp add: fs' node_at_def)
  ultimately show ?thesis by (simp add: read_text_def)
qed

section \<open>The paths of the save tools\<close>

lemma root_of_append_underscore: "root_of (name @ CHR ''_'' # rest) = root_of (name @ ''_'')"
proof (cases name)
  case Nil
  then show ?thesis by (simp add: root_of_def)
next
  case (Cons a as)
  show ?thesis
  proof (cases as)
    case Nil
    with Cons show ?thesis by (simp add: root_of_def)
  next
    case (Cons b bs)
    with \<open>name = a # as\<close> show ?thesis by (cases bs) (simp_all add: root_of_def)
  qed
qed

lemma is_part_long: "length x \<ge> 2 \<Longrightarrow> is_part x"
  unfolding is_part_def by auto

lemma parts_Path_append:
  assumes "CHR ''/'' \<notin> set suf" "length suf \<ge> 2"
  shows "parts (Path (name @ suf)) =
         filter is_part (butlast (split_sep CHR ''/'' name)) @ [last (split_sep CHR ''/'' name) @ suf]"
proof -
  have "length (last (split_sep CHR ''/'' name) @ suf) \<ge> 2" using assms(2) by simp
  then have "is_part (last (split_sep CHR ''/'' name) @ suf)" by (rule is_part_long)
  then show ?thesis by (simp add: Path_def split_sep_append[OF assms(1)])
qed

lemma test_case_path_shape:
  "\<exists>rt common l. \<forall>t. test_case_path name category t =
      \<lparr>root = rt, parts = common @ [l @ ''_'' @ strftime_file t @ ''.py'']\<rparr>"
proof -
  let ?dir = "Path (''generated_tests/'' @ category)"
  let ?pre = "filter is_part (butlast (split_sep CHR ''/'' name))"
  let ?l = "last (split_sep CHR ''/'' name)"
  have p: "parts (Path (name @ ''_'' @ strftime_file t @ ''.py'')) = ?pre @ [?l @ ''_'' @ strftime_file t @ ''.py'']" for t
    using parts_Path_append[of "''_'' @ strftime_file t @ ''.py''" name]
    by (simp add: strftime_file_no_slash)
  have r: "root_of (name @ ''_'' @ strftime_file t @ ''.py'') = root_of (name @ ''_'')" for t
    using root_of_append_underscore[of name "strftime_file t @ ''.py''"] by simp
  show ?thesis
  proof (cases "root_of (name @ ''_'') = []")
    case True
    have "test_case_path name category t =
        \<lparr>root = root ?dir, parts = (parts ?dir @ ?pre) @ [?l @ ''_'' @ strftime_file t @ ''.py'']\<rparr>" for t
      using True r[of t] p[of t] by (simp add: test_case_path_def truediv_def Let_def)
    then show ?thesis by blast
  next
    case False
    have "test_case_path name category t =
        \<lparr>root = root_of (name @ ''_''), parts = ?pre @ [?l @ ''_'' @ strftime_file t @ ''.py'']\<rparr>" for t
      using False r[of t] p[of t] by (simp add: test_case_path_def truediv_def Let_def Path_def)
    then show ?thesis by blast
  qed
qed

lemma sanitize_safe: "c \<in> set (sanitize filename) \<Longrightarrow> safe_char c"
  by (auto simp: sanitize_def safe_char_def)

lemma safe_char_not_slash: "safe_char c \<Longrightarrow> c \<noteq> CHR ''/''"
  by (auto simp: safe_char_def word_char_def Let_def)

lemma safe_char_not_dot: "safe_char c \<Longrightarrow> c \<noteq> CHR ''.''"
  by (auto simp: safe_char_def word_char_def Let_def)

lemma extension_of_cases:
  "extension_of code_type \<in> {''.resc'', ''.repl'', ''.cs'', ''.txt''}"
  by (auto simp: extension_of_def extensions_def split: option.splits if_splits)

lemma extension_of_no_slash: "CHR ''/'' \<notin> set (extension_of code_type)"
  using extension_of_cases[of code_type] by auto

lemma renode_full_filename_no_slash: "CHR ''/'' \<notin> set (renode_full_filename filename code_type now)"
  using sanitize_safe[of "CHR ''/''" filename] safe_char_not_slash
  by (auto simp: renode_full_filename_def Let_def strftime_file_no_slash extension_of_no_slash)

lemma renode_full_filename_head:
  "\<exists>c cs. renode_full_filename filename code_type now = c # cs \<and> c \<noteq> CHR ''/'' \<and> c \<noteq> CHR ''.''"
proof (cases "sanitize filename")
  case Nil
  then show ?thesis by (simp add: renode_full_filename_def Let_def)
next
  case (Cons c cs)
  then have "safe_char c" using sanitize_safe[of c filename] by simp
  with Cons show ?thesis
    by (auto simp: renode_full_filename_def Let_def dest: safe_char_not_slash safe_char_not_dot)
qed

lemma renode_code_path_shape:
  "renode_code_path filename code_type category now =
     \<lparr>root = root (renode_code_dir category code_type),
      parts = parts (renode_code_dir category code_type) @
              [renode_full_filename filename code_type now]\<rparr>"
proof -
  let ?f = "renode_full_filename filename code_type now"
  obtain c cs where f: "?f = c # cs" and c: "c \<noteq> CHR ''/''" "c \<noteq> CHR ''.''"
    using renode_full_filename_head by blast
  have "root_of ?f = []" using f c by (simp add: root_of_def)
  moreover have "split_sep CHR ''/'' ?f = [?f]"
    by (rule split_sep_no_sep) (rule renode_full_filename_no_slash)
  moreover have "is_part ?f" using f c by (auto simp: is_part_def)
  ultimately show ?thesis by (simp add: renode_code_path_def truediv_def Path_def)
qed

section \<open>Two saves in a row\<close>

lemma posix_mkdir_extends:
  "posix_mkdir q fs = (r, fs') \<Longrightarrow> cwd fs' = cwd fs \<and> nodes fs \<subseteq>\<^sub>m nodes fs'"
  by (auto simp: posix_mkdir_def split: prod.splits dest: mkdirs_extends)

lemma location_shape:
  "location fs p = Some loc \<Longrightarrow> parts p = common @ [n] \<Longrightarrow>
   \<exists>d. walk (nodes fs) (start_of fs p) common = Inr d \<and> loc = d @ [n]"
  by (auto simp: location_def split: if_splits sum.splits)

lemma two_writes:
  assumes p1: "parts p1 = common @ [n1]" and p2: "parts p2 = common @ [n2]"
    and rt: "root p1 = root p2" and ne: "n1 \<noteq> n2"
    and w1: "posix_write p1 c1 fsa = (None, fs1)"
    and mk: "posix_mkdir q fs1 = (r, fsb)"
    and w2: "posix_write p2 c2 fsb = (None, fs2)"
  shows "read_text fs2 p1 = Inr c1 \<and> read_text fs2 p2 = Inr c2"
proof -
  from posix_write_ok[OF w1] obtain loc1 where l1: "location fsa p1 = Some loc1"
    and nd1: "node_at (nodes fsa) loc1 \<noteq> Some Dir"
    and fs1: "fs1 = fsa\<lparr>nodes := (nodes fsa)(loc1 \<mapsto> File c1)\<rparr>" by blast
  from posix_write_ok[OF w2] obtain loc2 where l2: "location fsb p2 = Some loc2"
    and nd2: "node_at (nodes fsb) loc2 \<noteq> Some Dir"
    and fs2: "fs2 = fsb\<lparr>nodes := (nodes fsb)(loc2 \<mapsto> File c2)\<rparr>" by blast
  from posix_mkdir_extends[OF mk] have cb: "cwd fsb = cwd fs1" and le: "nodes fs1 \<subseteq>\<^sub>m nodes fsb"
    by auto
  have ne1: "loc1 \<noteq> []" and ne2: "loc2 \<noteq> []"
    using l1 l2 by (auto dest: location_nonempty)
  have k1: "dirs_kept (nodes fsa) (nodes fs1)"
    using nd1 ne1 by (auto simp: fs1 dirs_kept_def node_at_def)
  have kb: "dirs_kept (nodes fs1) (nodes fsb)" using le by (rule map_le_dirs_kept)
  have k2: "dirs_kept (nodes fsb) (nodes fs2)"
    using nd2 ne2 by (auto simp: fs2 dirs_kept_def node_at_def)
  have c1: "cwd fs1 = cwd fsa" by (simp add: fs1)
  have c2: "cwd fs2 = cwd fsb" by (simp add: fs2)
  have l1b: "location fsb p1 = Some loc1"
    using l1 k1 c1 kb cb by (blast intro: location_dirs_kept)
  from location_shape[OF l1b p1] obtain d where d: "walk (nodes fsb) (start_of fsb p1) common = Inr d"
    and loc1: "loc1 = d @ [n1]" by blast
  from location_shape[OF l2 p2] obtain d' where d': "walk (nodes fsb) (start_of fsb p2) common = Inr d'"
    and loc2: "loc2 = d' @ [n2]" by blast
  have "start_of fsb p1 = start_of fsb p2" using rt by (simp add: start_of_def)
  with d d' have "d = d'" by simp
  with loc1 loc2 ne have diff: "loc1 \<noteq> loc2" by simp
  have "nodes fs1 loc1 = Some (File c1)" by (simp add: fs1)
  with le have "nodes fsb loc1 = Some (File c1)" by (auto simp: map_le_def dom_def)
  with diff have "nodes fs2 loc1 = Some (File c1)" by (simp add: fs2)
  moreover have "location fs2 p1 = Some loc1" using l1b k2 c2 by (rule location_dirs_kept)
  ultimately have "read_text fs2 p1 = Inr c1" using ne1 by (simp add: read_text_def node_at_def)
  moreover have "read_text fs2 p2 = Inr c2" using w2 by (rule posix_write_read)
  ultimately show ?thesis by simp
qed

lemma save_test_case_success:
  assumes "save_test_case os test_name test_code category now fs = (r, fs')" "status r = ''success''"
  shows "\<exists>fs1. os_mkdir os (Path (''generated_tests/'' @ category)) fs = (None, fs1) \<and>
               os_write os (test_case_path test_name category now) test_code fs1 = (None, fs') \<and>
               filepath r = str_path (test_case_path test_name category now)"
  using assms
  by (auto simp: save_test_case_def Let_def save_error_def split: prod.splits option.splits)

lemma save_renode_code_success:
  assumes "save_renode_code os filename code code_type category now fs = (r, fs')"
    "status r = ''success''"
  shows "\<exists>fs1. os_mkdir os (renode_code_dir category code_type) fs = (None, fs1) \<and>
               os_write os (renode_code_path filename code_type category now) code fs1 = (None, fs') \<and>
               filepath r = str_path (renode_code_path filename code_type category now)"
  using assms
  by (auto simp: save_renode_code_def Let_def save_error_def split: prod.splits option.splits)

lemma normal_test_case_path: "normal (test_case_path test_name category now)"
  by (simp add: test_case_path_def Let_def normal_truediv normal_Path)

lemma normal_renode_code_path: "normal (renode_code_path filename code_type category now)"
  by (simp add: renode_code_path_def renode_code_dir_def normal_truediv normal_Path)

lemma posix_ops [simp]: "os_mkdir posix = posix_mkdir" "os_write posix = posix_write"
  by (simp_all add: posix_def)

lemma pynvme_distinct_seconds:
  assumes v: "valid_datetime t1" "valid_datetime t2" and ns: "\<not> same_second t1 t2"
    and s1: "save_test_case posix name code1 category t1 fs = (r1, fs1)" "status r1 = ''success''"
    and s2: "save_test_case posix name code2 category t2 fs1 = (r2, fs2)" "status r2 = ''success''"
  shows "filepath r1 \<noteq> filepath r2 \<and> read_text fs2 (Path (filepath r1)) = Inr code1 \<and>
         read_text fs2 (Path (filepath r2)) = Inr code2"
proof -
  let ?p1 = "test_case_path name category t1" and ?p2 = "test_case_path name category t2"
  from save_test_case_success[OF s1] obtain fsa where
    w1: "posix_write ?p1 code1 fsa = (None, fs1)" and f1: "filepath r1 = str_path ?p1" by auto
  from save_test_case_success[OF s2] obtain fsb where
    mk: "posix_mkdir (Path (''generated_tests/'' @ category)) fs1 = (None, fsb)"
    and w2: "posix_write ?p2 code2 fsb = (None, fs2)" and f2: "filepath r2 = str_path ?p2" by auto
  obtain rt common l where sh: "\<And>t. test_case_path name category t =
      \<lparr>root = rt, parts = common @ [l @ ''_'' @ strftime_file t @ ''.py'']\<rparr>"
    using test_case_path_shape[of name category] by blast
  have "strftime_file t1 \<noteq> strftime_file t2" using v ns strftime_file_inj by blast
  then have ne: "l @ ''_'' @ strftime_file t1 @ ''.py'' \<noteq> l @ ''_'' @ strftime_file t2 @ ''.py''"
    by simp
  have rd: "read_text fs2 ?p1 = Inr code1 \<and> read_text fs2 ?p2 = Inr code2"
    by (rule two_writes[OF _ _ _ ne w1 mk w2]) (simp_all add: sh)
  have P1: "Path (filepath r1) = ?p1" and P2: "Path (filepath r2) = ?p2"
    by (simp_all add: f1 f2 Path_str_path normal_test_case_path)
  have "?p1 \<noteq> ?p2" using ne by (simp add: sh)
  with P1 P2 have "filepath r1 \<noteq> filepath r2" by metis
  with rd P1 P2 show ?thesis by simp
qed

lemma renode_distinct_seconds:
  assumes v: "valid_datetime t1" "valid_datetime t2" and ns: "\<not> same_second t1 t2"
    and s1: "save_renode_code posix name code1 code_type category t1 fs = (r1, fs1)" "status r1 = ''success''"
    and s2: "save_renode_code posix name code2 code_type category t2 fs1 = (r2, fs2)" "status r2 = ''success''"
  shows "filepath r1 \<noteq> filepath r2 \<and> read_text fs2 (Path (filepath r1)) = Inr code1 \<and>
         read_text fs2 (Path (filepath r2)) = Inr code2"
proof -
  let ?p1 = "renode_code_path name code_type category t1"
  let ?p2 = "renode_code_path name code_type category t2"
  from save_renode_code_success[OF s1] obtain fsa where
    w1: "posix_write ?p1 code1 fsa = (None, fs1)" and f1: "filepath r1 = str_path ?p1" by auto
  from save_renode_code_success[OF s2] obtain fsb where
    mk: "posix_mkdir (renode_code_dir category code_type) fs1 = (None, fsb)"
    and w2: "posix_write ?p2 code2 fsb = (None, fs2)" and f2: "filepath r2 = str_path ?p2" by auto
  have "strftime_file t1 \<noteq> strftime_file t2" using v ns strftime_file_inj by blast
  then have ne: "renode_full_filename name code_type t1 \<noteq> renode_full_filename name code_type t2"
    by (simp add: renode_full_filename_def Let_def)
  have rd: "read_text fs2 ?p1 = Inr code1 \<and> read_text fs2 ?p2 = Inr code2"
    by (rule two_writes[OF _ _ _ ne w1 mk w2]) (simp_all add: renode_code_path_shape)
  have P1: "Path (filepath r1) = ?p1" and P2: "Path (filepath r2) = ?p2"
    by (simp_all add: f1 f2 Path_str_path normal_renode_code_path)
  have "?p1 \<noteq> ?p2" using ne by (simp add: renode_code_path_shape)
  with P1 P2 have "filepath r1 \<noteq> filepath r2" by metis
  with rd P1 P2 show ?thesis by simp
qed

lemmas eval_defs = save_test_case_def save_renode_code_def posix_def posix_mkdir_def posix_write_def
  Path_def root_of_def is_part_def fs_empty_def clock_a_def clock_b_def clock_c_def
  test_case_path_def truediv_def start_of_def node_at_def strftime_file_def pad2_def pad4_def
  digit_def str_path_def read_text_def location_def inside_def Let_def
  renode_code_path_def renode_code_dir_def renode_full_filename_def sanitize_def safe_char_def
  word_char_def extension_of_def extensions_def save_error_def


section \<open>The save tools: where the file lands\<close>

lemma mkdirs_walk:
  "mkdirs ns cur cs = (None, ns') \<Longrightarrow> \<exists>d. walk ns' cur cs = Inr d"
proof (induction cs arbitrary: ns cur)
  case Nil
  then show ?case by simp
next
  case (Cons c cs)
  show ?case
  proof (cases "c = ''..''")
    case True
    with Cons show ?thesis by simp
  next
    case False
    show ?thesis
    proof (cases "node_at ns (cur @ [c])")
      case None
      with False Cons.prems have m: "mkdirs (ns((cur @ [c]) \<mapsto> Dir)) (cur @ [c]) cs = (None, ns')"
        by simp
      then obtain d where d: "walk ns' (cur @ [c]) cs = Inr d" using Cons.IH by blast
      from mkdirs_extends[OF m] have "ns' (cur @ [c]) = Some Dir"
        by (auto simp: map_le_def dom_def)
      then have "node_at ns' (cur @ [c]) = Some Dir" by (simp add: node_at_def)
      with False d show ?thesis by simp
    next
      case (Some n)
      show ?thesis
      proof (cases n)
        case Dir
        with Some False Cons.prems have m: "mkdirs ns (cur @ [c]) cs = (None, ns')" by simp
        then obtain d where d: "walk ns' (cur @ [c]) cs = Inr d" using Cons.IH by blast
        from Some Dir have "node_at ns' (cur @ [c]) = Some Dir"
          using mkdirs_extends[OF m] by (auto simp: node_at_def map_le_def dom_def split: if_splits)
        with False d show ?thesis by simp
      next
        case (File t)
        with Some False Cons.prems show ?thesis by simp
      qed
    qed
  qed
qed

lemma renode_save_inside:
  assumes s: "save_renode_code posix filename code code_type category now fs = (r, fs')"
    and ok: "status r = ''success''"
  shows "inside fs' (renode_code_dir category code_type) (Path (filepath r)) \<and>
         (\<exists>d. location fs' (Path (filepath r)) =
                Some (d @ [sanitize filename @ ''_'' @ strftime_file now @ extension_of code_type])) \<and>
         list_all safe_char (sanitize filename)"
proof -
  let ?dir = "renode_code_dir category code_type"
  let ?p = "renode_code_path filename code_type category now"
  let ?f = "renode_full_filename filename code_type now"
  from save_renode_code_success[OF s ok] obtain fsa where
    mk: "posix_mkdir ?dir fs = (None, fsa)" and w: "posix_write ?p code fsa = (None, fs')"
    and f: "filepath r = str_path ?p" by auto
  have P: "Path (filepath r) = ?p" by (simp add: f Path_str_path normal_renode_code_path)
  have sh: "parts ?p = parts ?dir @ [?f]" "root ?p = root ?dir"
    by (simp_all add: renode_code_path_shape)
  from mk obtain nsa where "mkdirs (nodes fs) (start_of fs ?dir) (parts ?dir) = (None, nsa)"
    and fsa: "fsa = fs\<lparr>nodes := nsa\<rparr>"
    by (auto simp: posix_mkdir_def split: prod.splits)
  then obtain d where "walk nsa (start_of fs ?dir) (parts ?dir) = Inr d" using mkdirs_walk by blast
  moreover have "start_of fsa ?dir = start_of fs ?dir" by (simp add: fsa start_of_def)
  ultimately have wa: "walk (nodes fsa) (start_of fsa ?dir) (parts ?dir) = Inr d"
    by (simp add: fsa)
  from posix_write_ok[OF w] obtain loc where l: "location fsa ?p = Some loc"
    and nd: "node_at (nodes fsa) loc \<noteq> Some Dir"
    and fs': "fs' = fsa\<lparr>nodes := (nodes fsa)(loc \<mapsto> File code)\<rparr>" by blast
  have k: "dirs_kept (nodes fsa) (nodes fs')"
    using nd location_nonempty[OF l] by (auto simp: fs' dirs_kept_def node_at_def)
  have c: "cwd fs' = cwd fsa" by (simp add: fs')
  have st: "start_of fsa ?p = start_of fsa ?dir" "start_of fs' ?dir = start_of fsa ?dir"
    using sh c by (simp_all add: start_of_def)
  from location_shape[OF l sh(1)] wa st have loc: "loc = d @ [?f]" by auto
  have l': "location fs' ?p = Some loc" using l k c by (rule location_dirs_kept)
  have w': "walk (nodes fs') (start_of fs' ?dir) (parts ?dir) = Inr d"
    using walk_dirs_kept[OF wa k] st by simp
  have "inside fs' ?dir ?p" using l' w' loc by (simp add: inside_def)
  moreover have "list_all safe_char (sanitize filename)"
    by (simp add: list_all_iff sanitize_safe)
  ultimately show ?thesis using P l' loc by (auto simp: renode_full_filename_def Let_def)
qed

section \<open>The save tools: results, overwriting and the output directory\<close>

lemma same_second_paths:
  "same_second t1 t2 \<Longrightarrow>
   test_case_path name category t1 = test_case_path name category t2 \<and>
   renode_code_path name code_type category t1 = renode_code_path name code_type category t2"
  by (simp add: test_case_path_def renode_code_path_def renode_full_filename_def Let_def
      same_second_strftime)

text \<open>
  Claim C10. For every input and every behaviour of the operating system,
  \<open>save_test_case\<close> and \<open>save_renode_code\<close> return a dictionary whose \<^verbatim>\<open>status\<close> is
  \<^verbatim>\<open>success\<close> or \<^verbatim>\<open>error\<close>. An exception raised by making the directory or by writing
  the file is caught: the status is \<^verbatim>\<open>error\<close>, the \<^verbatim>\<open>filepath\<close> is empty and the message
  carries the exception's text. With status \<^verbatim>\<open>success\<close> both operations returned normally
  and \<^verbatim>\<open>filepath\<close> is \<^verbatim>\<open>str()\<close> of the path that was written; on the POSIX tree, reading
  the returned \<^verbatim>\<open>filepath\<close> afterwards gives the text that was saved.
\<close>

theorem save_tools_errors_as_values:
  "(case save_test_case os test_name test_code category now fs of
      (r, fs') \<Rightarrow>
        (status r = ''success'' \<and>
         filepath r = str_path (test_case_path test_name category now) \<and>
         (\<exists>fs1. os_mkdir os (Path (''generated_tests/'' @ category)) fs = (None, fs1) \<and>
                os_write os (test_case_path test_name category now) test_code fs1 = (None, fs'))) \<or>
        (status r = ''error'' \<and> filepath r = [] \<and>
         (\<exists>e. message r = ''Error saving test: '' @ str_exn e \<and>
              (os_mkdir os (Path (''generated_tests/'' @ category)) fs = (Some e, fs') \<or>
               (\<exists>fs1. os_mkdir os (Path (''generated_tests/'' @ category)) fs = (None, fs1) \<and>
                  os_write os (test_case_path test_name category now) test_code fs1 =
                    (Some e, fs'))))))
   \<and>
   (case save_renode_code os filename code code_type category now fs of
      (r, fs') \<Rightarrow>
        (status r = ''success'' \<and>
         filepath r = str_path (renode_code_path filename code_type category now) \<and>
         (\<exists>fs1. os_mkdir os (renode_code_dir category code_type) fs = (None, fs1) \<and>
                os_write os (renode_code_path filename code_type category now) code fs1 =
                  (None, fs'))) \<or>
        (status r = ''error'' \<and> filepath r = [] \<and>
         (\<exists>e. message r = ''Error saving code: '' @ str_exn e \<and>
              (os_mkdir os (renode_code_dir category code_type) fs = (Some e, fs') \<or>
               (\<exists>fs1. os_mkdir os (renode_code_dir category code_type) fs = (None, fs1) \<and>
                  os_write os (renode_code_path filename code_type category now) code fs1 =
                    (Some e, fs'))))))
   \<and>
   (case save_test_case posix test_name test_code category now pfs of
      (r, fs') \<Rightarrow>
        (status r = ''success'' \<and> read_text fs' (Path (filepath r)) = Inr test_code) \<or>
        (status r = ''error'' \<and> filepath r = []))
   \<and>
   (case save_renode_code posix filename code code_type category now pfs of
      (r, fs') \<Rightarrow>
        (status r = ''success'' \<and> read_text fs' (Path (filepath r)) = Inr code) \<or>
        (status r = ''error'' \<and> filepath r = []))"
proof (intro conjI)
  show "case save_test_case os test_name test_code category now fs of
      (r, fs') \<Rightarrow>
        (status r = ''success'' \<and>
         filepath r = str_path (test_case_path test_name category now) \<and>
         (\<exists>fs1. os_mkdir os (Path (''generated_tests/'' @ category)) fs = (None, fs1) \<and>
                os_write os (test_case_path test_name category now) test_code fs1 = (None, fs'))) \<or>
        (status r = ''error'' \<and> filepath r = [] \<and>
         (\<exists>e. message r = ''Error saving test: '' @ str_exn e \<and>
              (os_mkdir os (Path (''generated_tests/'' @ category)) fs = (Some e, fs') \<or>
               (\<exists>fs1. os_mkdir os (Path (''generated_tests/'' @ category)) fs = (None, fs1) \<and>
                  os_write os (test_case_path test_name category now) test_code fs1 =
                    (Some e, fs')))))"
    by (auto simp: save_test_case_def Let_def save_error_def split: prod.splits option.splits)
next
  show "case save_renode_code os filename code code_type category now fs of
      (r, fs') \<Rightarrow>
        (status r = ''success'' \<and>
         filepath r = str_path (renode_code_path filename code_type category now) \<and>
         (\<exists>fs1. os_mkdir os (renode_code_dir category code_type) fs = (None, fs1) \<and>
                os_write os (renode_code_path filename code_type category now) code fs1 =
                  (None, fs'))) \<or>
        (status r = ''error'' \<and> filepath r = [] \<and>
         (\<exists>e. message r = ''Error saving code: '' @ str_exn e \<and>
              (os_mkdir os (renode_code_dir category code_type) fs = (Some e, fs') \<or>
               (\<exists>fs1. os_mkdir os (renode_code_dir category code_type) fs = (None, fs1) \<and>
                  os_write os (renode_code_path filename code_type category now) code fs1 =
                    (Some e, fs')))))"
    by (auto simp: save_renode_code_def Let_def save_error_def split: prod.splits option.splits)
next
  show "case save_test_case posix test_name test_code category now pfs of
      (r, fs') \<Rightarrow>
        (status r = ''success'' \<and> read_text fs' (Path (filepath r)) = Inr test_code) \<or>
        (status r = ''error'' \<and> filepath r = [])"
    by (auto simp: save_test_case_def Let_def save_error_def Path_str_path normal_test_case_path
        posix_write_read split: prod.splits option.splits)
next
  show "case save_renode_code posix filename code code_type category now pfs of
      (r, fs') \<Rightarrow>
        (status r = ''success'' \<and> read_text fs' (Path (filepath r)) = Inr code) \<or>
        (status r = ''error'' \<and> filepath r = [])"
    by (auto simp: save_renode_code_def Let_def save_error_def Path_str_path
        normal_renode_code_path posix_write_read split: prod.splits option.splits)
qed

lemma same_second_overwrites_pynvme:
  assumes ss: "same_second t1 t2"
    and s1: "save_test_case posix name code1 category t1 fs = (r1, fs1)" "status r1 = ''success''"
    and s2: "save_test_case posix name code2 category t2 fs1 = (r2, fs2)" "status r2 = ''success''"
  shows "filepath r1 = filepath r2 \<and> read_text fs2 (Path (filepath r1)) = Inr code2"
proof -
  let ?p1 = "test_case_path name category t1" and ?p2 = "test_case_path name category t2"
  from save_test_case_success[OF s1] have f1: "filepath r1 = str_path ?p1" by auto
  from save_test_case_success[OF s2] obtain fsb where
    w2: "posix_write ?p2 code2 fsb = (None, fs2)" and f2: "filepath r2 = str_path ?p2" by auto
  have e: "?p1 = ?p2" using same_second_paths[OF ss] by blast
  have "read_text fs2 ?p2 = Inr code2" using w2 by (rule posix_write_read)
  then show ?thesis using e f1 f2 by (simp add: Path_str_path normal_test_case_path)
qed

lemma same_second_overwrites_renode:
  assumes ss: "same_second t1 t2"
    and s1: "save_renode_code posix name code1 code_type category t1 fs = (r1, fs1)" "status r1 = ''success''"
    and s2: "save_renode_code posix name code2 code_type category t2 fs1 = (r2, fs2)" "status r2 = ''success''"
  shows "filepath r1 = filepath r2 \<and> read_text fs2 (Path (filepath r1)) = Inr code2"
proof -
  let ?p1 = "renode_code_path name code_type category t1"
  let ?p2 = "renode_code_path name code_type category t2"
  from save_renode_code_success[OF s1] have f1: "filepath r1 = str_path ?p1" by auto
  from save_renode_code_success[OF s2] obtain fsb where
    w2: "posix_write ?p2 code2 fsb = (None, fs2)" and f2: "filepath r2 = str_path ?p2" by auto
  have e: "?p1 = ?p2" using same_second_paths[OF ss] by blast
  have "read_text fs2 ?p2 = Inr code2" using w2 by (rule posix_write_read)
  then show ?thesis using e f1 f2 by (simp add: Path_str_path normal_renode_code_path)
qed

text \<open>
  Claim C6, as amended. A successful save writes the file whose name is the logical name,
  an underscore, the clock reading as \<^verbatim>\<open>YYYYmmdd_HHMMSS\<close> (fifteen characters, to the
  second) and the extension, in the directory of the category: \<open>save_test_case\<close> returns
  the path \<^verbatim>\<open>generated_tests/<category>/<test_name>_<timestamp>.py\<close> and
  \<open>save_renode_code\<close> the path
  \<^verbatim>\<open>generated_renode/<category>/<code_type>/<sanitized name>_<timestamp><ext>\<close>, whose
  last component is the name of the file on disk. Nothing else tells two saves apart. Two
  successful saves of one name (and one category, one code type) whose clock readings
  differ in the second write two files with different paths, and the first file still
  holds its text after the second save. Two such saves whose readings fall in the same
  second have the same path, and after the second save the file holds the second text.
\<close>

theorem saves_of_one_name:
  "strftime_file t1 =
     pad4 (year t1) @ pad2 (month t1) @ pad2 (day t1) @ ''_'' @
     pad2 (hour t1) @ pad2 (minute t1) @ pad2 (second t1) \<and>
   length (strftime_file t1) = 15 \<and>
   (valid_datetime t1 \<and> valid_datetime t2 \<and>
    save_test_case posix name code1 category t1 fs = (r1, fs1) \<and> status r1 = ''success'' \<and>
    save_test_case posix name code2 category t2 fs1 = (r2, fs2) \<and> status r2 = ''success'' \<longrightarrow>
      filepath r1 =
        str_path (truediv (Path (''generated_tests/'' @ category))
                    (name @ ''_'' @ strftime_file t1 @ ''.py'')) \<and>
      filepath r2 =
        str_path (truediv (Path (''generated_tests/'' @ category))
                    (name @ ''_'' @ strftime_file t2 @ ''.py'')) \<and>
      (if same_second t1 t2
       then filepath r1 = filepath r2 \<and> read_text fs2 (Path (filepath r1)) = Inr code2
       else filepath r1 \<noteq> filepath r2 \<and> read_text fs2 (Path (filepath r1)) = Inr code1 \<and>
            read_text fs2 (Path (filepath r2)) = Inr code2))
   \<and>
   (valid_datetime u1 \<and> valid_datetime u2 \<and>
    save_renode_code posix filename src1 code_type cat u1 gs = (q1, gs1) \<and> status q1 = ''success'' \<and>
    save_renode_code posix filename src2 code_type cat u2 gs1 = (q2, gs2) \<and> status q2 = ''success'' \<longrightarrow>
      filepath q1 =
        str_path (truediv (Path (''generated_renode/'' @ cat @ ''/'' @ code_type))
                    (sanitize filename @ ''_'' @ strftime_file u1 @ extension_of code_type)) \<and>
      filepath q2 =
        str_path (truediv (Path (''generated_renode/'' @ cat @ ''/'' @ code_type))
                    (sanitize filename @ ''_'' @ strftime_file u2 @ extension_of code_type)) \<and>
      (\<exists>d. location gs1 (Path (filepath q1)) =
              Some (d @ [sanitize filename @ ''_'' @ strftime_file u1 @ extension_of code_type])) \<and>
      (\<exists>d. location gs2 (Path (filepath q2)) =
              Some (d @ [sanitize filename @ ''_'' @ strftime_file u2 @ extension_of code_type])) \<and>
      (if same_second u1 u2
       then filepath q1 = filepath q2 \<and> read_text gs2 (Path (filepath q1)) = Inr src2
       else filepath q1 \<noteq> filepath q2 \<and> read_text gs2 (Path (filepath q1)) = Inr src1 \<and>
            read_text gs2 (Path (filepath q2)) = Inr src2))"
proof (intro conjI impI)
  show "strftime_file t1 =
     pad4 (year t1) @ pad2 (month t1) @ pad2 (day t1) @ ''_'' @
     pad2 (hour t1) @ pad2 (minute t1) @ pad2 (second t1)"
    by (simp add: strftime_file_def)
next
  show "length (strftime_file t1) = 15"
    by (simp add: strftime_file_def length_pad2 length_pad4)
next
  assume a: "valid_datetime t1 \<and> valid_datetime t2 \<and>
    save_test_case posix name code1 category t1 fs = (r1, fs1) \<and> status r1 = ''success'' \<and>
    save_test_case posix name code2 category t2 fs1 = (r2, fs2) \<and> status r2 = ''success''"
  then have s1: "save_test_case posix name code1 category t1 fs = (r1, fs1)" "status r1 = ''success''"
    by simp_all
  from save_test_case_success[OF s1] have "filepath r1 = str_path (test_case_path name category t1)"
    by auto
  then show "filepath r1 =
        str_path (truediv (Path (''generated_tests/'' @ category))
                    (name @ ''_'' @ strftime_file t1 @ ''.py''))"
    by (simp add: test_case_path_def Let_def)
next
  assume a: "valid_datetime t1 \<and> valid_datetime t2 \<and>
    save_test_case posix name code1 category t1 fs = (r1, fs1) \<and> status r1 = ''success'' \<and>
    save_test_case posix name code2 category t2 fs1 = (r2, fs2) \<and> status r2 = ''success''"
  then have s2: "save_test_case posix name code2 category t2 fs1 = (r2, fs2)" "status r2 = ''success''"
    by simp_all
  from save_test_case_success[OF s2] have "filepath r2 = str_path (test_case_path name category t2)"
    by auto
  then show "filepath r2 =
        str_path (truediv (Path (''generated_tests/'' @ category))
                    (name @ ''_'' @ strftime_file t2 @ ''.py''))"
    by (simp add: test_case_path_def Let_def)
next
  assume a: "valid_datetime t1 \<and> valid_datetime t2 \<and>
    save_test_case posix name code1 category t1 fs = (r1, fs1) \<and> status r1 = ''success'' \<and>
    save_test_case posix name code2 category t2 fs1 = (r2, fs2) \<and> status r2 = ''success''"
  then have v: "valid_datetime t1" "valid_datetime t2"
    and s1: "save_test_case posix name code1 category t1 fs = (r1, fs1)" "status r1 = ''success''"
    and s2: "save_test_case posix name code2 category t2 fs1 = (r2, fs2)" "status r2 = ''success''"
    by simp_all
  show "if same_second t1 t2
       then filepath r1 = filepath r2 \<and> read_text fs2 (Path (filepath r1)) = Inr code2
       else filepath r1 \<noteq> filepath r2 \<and> read_text fs2 (Path (filepath r1)) = Inr code1 \<and>
            read_text fs2 (Path (filepath r2)) = Inr code2"
  proof (cases "same_second t1 t2")
    case True
    from same_second_overwrites_pynvme[OF True s1 s2] True show ?thesis by auto
  next
    case False
    from pynvme_distinct_seconds[OF v False s1 s2] False show ?thesis by auto
  qed
next
  assume a: "valid_datetime u1 \<and> valid_datetime u2 \<and>
    save_renode_code posix filename src1 code_type cat u1 gs = (q1, gs1) \<and> status q1 = ''success'' \<and>
    save_renode_code posix filename src2 code_type cat u2 gs1 = (q2, gs2) \<and> status q2 = ''success''"
  then have s1: "save_renode_code posix filename src1 code_type cat u1 gs = (q1, gs1)"
      "status q1 = ''success''"
    by simp_all
  from save_renode_code_success[OF s1]
  have "filepath q1 = str_path (renode_code_path filename code_type cat u1)" by auto
  then show "filepath q1 =
        str_path (truediv (Path (''generated_renode/'' @ cat @ ''/'' @ code_type))
                    (sanitize filename @ ''_'' @ strftime_file u1 @ extension_of code_type))"
    by (simp add: renode_code_path_def renode_code_dir_def renode_full_filename_def Let_def)
next
  assume a: "valid_datetime u1 \<and> valid_datetime u2 \<and>
    save_renode_code posix filename src1 code_type cat u1 gs = (q1, gs1) \<and> status q1 = ''success'' \<and>
    save_renode_code posix filename src2 code_type cat u2 gs1 = (q2, gs2) \<and> status q2 = ''success''"
  then have s2: "save_renode_code posix filename src2 code_type cat u2 gs1 = (q2, gs2)"
      "status q2 = ''success''"
    by simp_all
  from save_renode_code_success[OF s2]
  have "filepath q2 = str_path (renode_code_path filename code_type cat u2)" by auto
  then show "filepath q2 =
        str_path (truediv (Path (''generated_renode/'' @ cat @ ''/'' @ code_type))
                    (sanitize filename @ ''_'' @ strftime_file u2 @ extension_of code_type))"
    by (simp add: renode_code_path_def renode_code_dir_def renode_full_filename_def Let_def)
next
  assume a: "valid_datetime u1 \<and> valid_datetime u2 \<and>
    save_renode_code posix filename src1 code_type cat u1 gs = (q1, gs1) \<and> status q1 = ''success'' \<and>
    save_renode_code posix filename src2 code_type cat u2 gs1 = (q2, gs2) \<and> status q2 = ''success''"
  then have s1: "save_renode_code posix filename src1 code_type cat u1 gs = (q1, gs1)"
      "status q1 = ''success''"
    by simp_all
  from renode_save_inside[OF s1]
  show "\<exists>d. location gs1 (Path (filepath q1)) =
              Some (d @ [sanitize filename @ ''_'' @ strftime_file u1 @ extension_of code_type])"
    by blast
next
  assume a: "valid_datetime u1 \<and> valid_datetime u2 \<and>
    save_renode_code posix filename src1 code_type cat u1 gs = (q1, gs1) \<and> status q1 = ''success'' \<and>
    save_renode_code posix filename src2 code_type cat u2 gs1 = (q2, gs2) \<and> status q2 = ''success''"
  then have s2: "save_renode_code posix filename src2 code_type cat u2 gs1 = (q2, gs2)"
      "status q2 = ''success''"
    by simp_all
  from renode_save_inside[OF s2]
  show "\<exists>d. location gs2 (Path (filepath q2)) =
              Some (d @ [sanitize filename @ ''_'' @ strftime_file u2 @ extension_of code_type])"
    by blast
next
  assume a: "valid_datetime u1 \<and> valid_datetime u2 \<and>
    save_renode_code posix filename src1 code_type cat u1 gs = (q1, gs1) \<and> status q1 = ''success'' \<and>
    save_renode_code posix filename src2 code_type cat u2 gs1 = (q2, gs2) \<and> status q2 = ''success''"
  then have v: "valid_datetime u1" "valid_datetime u2"
    and s1: "save_renode_code posix filename src1 code_type cat u1 gs = (q1, gs1)"
      "status q1 = ''success''"
    and s2: "save_renode_code posix filename src2 code_type cat u2 gs1 = (q2, gs2)"
      "status q2 = ''success''"
    by simp_all
  show "if same_second u1 u2
       then filepath q1 = filepath q2 \<and> read_text gs2 (Path (filepath q1)) = Inr src2
       else filepath q1 \<noteq> filepath q2 \<and> read_text gs2 (Path (filepath q1)) = Inr src1 \<and>
            read_text gs2 (Path (filepath q2)) = Inr src2"
  proof (cases "same_second u1 u2")
    case True
    from same_second_overwrites_renode[OF True s1 s2] True show ?thesis by auto
  next
    case False
    from renode_distinct_seconds[OF v False s1 s2] False show ?thesis by auto
  qed
qed

text \<open>
  Claim C6 as stated fails: \<open>clock_a\<close> and \<open>clock_b\<close> are two readings within one
  second. Two saves of the name \<^verbatim>\<open>test_read\<close> at these readings both succeed and return
  the same \<^verbatim>\<open>filepath\<close>; the file held \<^verbatim>\<open>first\<close> after the first save and holds
  \<^verbatim>\<open>second\<close> after the second. \<open>save_renode_code\<close> does the same.
\<close>

theorem same_second_saves_overwrite:
  "same_second clock_a clock_b \<and> clock_a \<noteq> clock_b \<and>
   (case save_test_case posix ''test_read'' ''first'' ''general'' clock_a fs_empty of
     (r1, fs1) \<Rightarrow>
       (case save_test_case posix ''test_read'' ''second'' ''general'' clock_b fs1 of
          (r2, fs2) \<Rightarrow>
            status r1 = ''success'' \<and> status r2 = ''success'' \<and> filepath r1 = filepath r2 \<and>
            read_text fs1 (Path (filepath r1)) = Inr ''first'' \<and>
            read_text fs2 (Path (filepath r1)) = Inr ''second'')) \<and>
   (case save_renode_code posix ''uart'' ''first'' ''cs'' ''peripherals'' clock_a fs_empty of
     (r1, fs1) \<Rightarrow>
       (case save_renode_code posix ''uart'' ''second'' ''cs'' ''peripherals'' clock_b fs1 of
          (r2, fs2) \<Rightarrow>
            status r1 = ''success'' \<and> status r2 = ''success'' \<and> filepath r1 = filepath r2 \<and>
            read_text fs1 (Path (filepath r1)) = Inr ''first'' \<and>
            read_text fs2 (Path (filepath r1)) = Inr ''second''))"
  by (simp add: eval_defs same_second_def)

text \<open>
  Claim C7 at the test name \<^verbatim>\<open>../../evil\<close>. \<open>save_test_case\<close> uses the name as it is:
  the save succeeds, the returned path is
  \<^verbatim>\<open>generated_tests/general/../../evil_20240309_070501.py\<close>, and the file lies in the
  working directory, outside \<^verbatim>\<open>generated_tests\<close>. \<open>save_renode_code\<close>, given the same
  name, rewrites it to \<^verbatim>\<open>______evil\<close> and writes inside its directory (for every name:
  \<open>renode_save_inside\<close>).
\<close>

theorem save_test_case_leaves_output_directory:
  "(case save_test_case posix ''../../evil'' ''x = 1'' ''general'' clock_a fs_empty of
     (r, fs') \<Rightarrow>
       status r = ''success'' \<and>
       filepath r = ''generated_tests/general/../../evil_20240309_070501.py'' \<and>
       location fs' (Path (filepath r)) = Some [''app'', ''evil_20240309_070501.py''] \<and>
       read_text fs' (Path ''evil_20240309_070501.py'') = Inr ''x = 1'' \<and>
       \<not> inside fs' (Path ''generated_tests/general'') (Path (filepath r)) \<and>
       \<not> inside fs' (Path ''generated_tests'') (Path (filepath r))) \<and>
   (case save_renode_code posix ''../../evil'' ''x = 1'' ''cs'' ''general'' clock_a fs_empty of
     (r, fs') \<Rightarrow>
       status r = ''success'' \<and>
       filepath r = ''generated_renode/general/cs/______evil_20240309_070501.cs'' \<and>
       inside fs' (Path ''generated_renode/general/cs'') (Path (filepath r)))"
  by (simp add: eval_defs)

text \<open>
  The hypotheses of \<open>saves_of_one_name\<close> hold for two saves at \<open>clock_a\<close> and
  \<open>clock_c\<close>, one second apart, into the empty working directory; the files are
  \<^verbatim>\<open>test_read_20240309_070501.py\<close> and \<^verbatim>\<open>test_read_20240309_070502.py\<close>, and
  \<^verbatim>\<open>uart_20240309_070501.cs\<close> and \<^verbatim>\<open>uart_20240309_070502.cs\<close>.
\<close>

theorem saves_of_one_name_witness:
  "valid_datetime clock_a \<and> valid_datetime clock_c \<and> \<not> same_second clock_a clock_c \<and>
   strftime_file clock_a = ''20240309_070501'' \<and>
   (\<exists>r1 fs1 r2 fs2.
      save_test_case posix ''test_read'' ''first'' ''general'' clock_a fs_empty = (r1, fs1) \<and>
      status r1 = ''success'' \<and>
      save_test_case posix ''test_read'' ''second'' ''general'' clock_c fs1 = (r2, fs2) \<and>
      status r2 = ''success'' \<and>
      filepath r1 = ''generated_tests/general/test_read_20240309_070501.py'' \<and>
      filepath r2 = ''generated_tests/general/test_read_20240309_070502.py'' \<and>
      filepath r1 \<noteq> filepath r2 \<and> read_text fs2 (Path (filepath r1)) = Inr ''first'' \<and>
      read_text fs2 (Path (filepath r2)) = Inr ''second'') \<and>
   (\<exists>q1 gs1 q2 gs2.
      save_renode_code posix ''uart'' ''first'' ''cs'' ''peripherals'' clock_a fs_empty = (q1, gs1) \<and>
      status q1 = ''success'' \<and>
      save_renode_code posix ''uart'' ''second'' ''cs'' ''peripherals'' clock_c gs1 = (q2, gs2) \<and>
      status q2 = ''success'' \<and>
      filepath q1 = ''generated_renode/peripherals/cs/uart_20240309_070501.cs'' \<and>
      filepath q2 = ''generated_renode/peripherals/cs/uart_20240309_070502.cs'' \<and>
      filepath q1 \<noteq> filepath q2 \<and> read_text gs2 (Path (filepath q1)) = Inr ''first'' \<and>
      read_text gs2 (Path (filepath q2)) = Inr ''second'')"
proof -
  have v: "valid_datetime clock_a" "valid_datetime clock_c" "\<not> same_second clock_a clock_c"
    by (simp_all add: valid_datetime_def same_second_def clock_a_def clock_c_def)
  obtain r1 fs1 where e1:
    "save_test_case posix ''test_read'' ''first'' ''general'' clock_a fs_empty = (r1, fs1)"
    by (cases "save_test_case posix ''test_read'' ''first'' ''general'' clock_a fs_empty")
  obtain r2 fs2 where e2:
    "save_test_case posix ''test_read'' ''second'' ''general'' clock_c fs1 = (r2, fs2)"
    by (cases "save_test_case posix ''test_read'' ''second'' ''general'' clock_c fs1")
  have "status (fst (save_test_case posix ''test_read'' ''first'' ''general'' clock_a fs_empty)) =
      ''success''"
    by (simp add: eval_defs)
  with e1 have o1: "status r1 = ''success''" by simp
  have "status (fst (save_test_case posix ''test_read'' ''second'' ''general'' clock_c
      (snd (save_test_case posix ''test_read'' ''first'' ''general'' clock_a fs_empty)))) = ''success''"
    by (simp add: eval_defs)
  with e1 e2 have o2: "status r2 = ''success''" by simp
  obtain q1 gs1 where g1:
    "save_renode_code posix ''uart'' ''first'' ''cs'' ''peripherals'' clock_a fs_empty = (q1, gs1)"
    by (cases "save_renode_code posix ''uart'' ''first'' ''cs'' ''peripherals'' clock_a fs_empty")
  obtain q2 gs2 where g2:
    "save_renode_code posix ''uart'' ''second'' ''cs'' ''peripherals'' clock_c gs1 = (q2, gs2)"
    by (cases "save_renode_code posix ''uart'' ''second'' ''cs'' ''peripherals'' clock_c gs1")
  have "status (fst (save_renode_code posix ''uart'' ''first'' ''cs'' ''peripherals'' clock_a
      fs_empty)) = ''success''"
    by (simp add: eval_defs)
  with g1 have p1: "status q1 = ''success''" by simp
  have "status (fst (save_renode_code posix ''uart'' ''second'' ''cs'' ''peripherals'' clock_c
      (snd (save_renode_code posix ''uart'' ''first'' ''cs'' ''peripherals'' clock_a fs_empty)))) =
      ''success''"
    by (simp add: eval_defs)
  with g1 g2 have p2: "status q2 = ''success''" by simp
  have n1: "str_path (truediv (Path (''generated_tests/'' @ ''general''))
      (''test_read'' @ ''_'' @ strftime_file clock_a @ ''.py'')) =
      ''generated_tests/general/test_read_20240309_070501.py''"
    by (simp add: eval_defs)
  have n2: "str_path (truediv (Path (''generated_tests/'' @ ''general''))
      (''test_read'' @ ''_'' @ strftime_file clock_c @ ''.py'')) =
      ''generated_tests/general/test_read_20240309_070502.py''"
    by (simp add: eval_defs)
  have m1: "str_path (truediv (Path (''generated_renode/'' @ ''peripherals'' @ ''/'' @ ''cs''))
      (sanitize ''uart'' @ ''_'' @ strftime_file clock_a @ extension_of ''cs'')) =
      ''generated_renode/peripherals/cs/uart_20240309_070501.cs''"
    by (simp add: eval_defs)
  have m2: "str_path (truediv (Path (''generated_renode/'' @ ''peripherals'' @ ''/'' @ ''cs''))
      (sanitize ''uart'' @ ''_'' @ strftime_file clock_c @ extension_of ''cs'')) =
      ''generated_renode/peripherals/cs/uart_20240309_070502.cs''"
    by (simp add: eval_defs)
  have ts: "pad4 (year clock_a) @ pad2 (month clock_a) @ pad2 (day clock_a) @ ''_'' @
     pad2 (hour clock_a) @ pad2 (minute clock_a) @ pad2 (second clock_a) = ''20240309_070501''"
    by (simp add: eval_defs)
  note inst = saves_of_one_name[of clock_a clock_c "''test_read''" "''first''" "''general''"
      fs_empty r1 fs1 "''second''" r2 fs2 clock_a clock_c "''uart''" "''first''" "''cs''"
      "''peripherals''" fs_empty q1 gs1 "''second''" q2 gs2]
  have t: "strftime_file clock_a = ''20240309_070501''"
    using inst[THEN conjunct1] unfolding ts .
  have hp: "valid_datetime clock_a \<and> valid_datetime clock_c \<and>
    save_test_case posix ''test_read'' ''first'' ''general'' clock_a fs_empty = (r1, fs1) \<and>
    status r1 = ''success'' \<and>
    save_test_case posix ''test_read'' ''second'' ''general'' clock_c fs1 = (r2, fs2) \<and>
    status r2 = ''success''"
    using v e1 e2 o1 o2 by (intro conjI)
  note py = inst[THEN conjunct2, THEN conjunct2, THEN conjunct1, THEN mp, OF hp]
  have f1: "filepath r1 = ''generated_tests/general/test_read_20240309_070501.py''"
    using py[THEN conjunct1] unfolding n1 .
  have f2: "filepath r2 = ''generated_tests/general/test_read_20240309_070502.py''"
    using py[THEN conjunct2, THEN conjunct1] unfolding n2 .
  have f3: "filepath r1 \<noteq> filepath r2 \<and> read_text fs2 (Path (filepath r1)) = Inr ''first'' \<and>
     read_text fs2 (Path (filepath r2)) = Inr ''second''"
    using py[THEN conjunct2, THEN conjunct2] v(3) by simp
  have hr: "valid_datetime clock_a \<and> valid_datetime clock_c \<and>
    save_renode_code posix ''uart'' ''first'' ''cs'' ''peripherals'' clock_a fs_empty = (q1, gs1) \<and>
    status q1 = ''success'' \<and>
    save_renode_code posix ''uart'' ''second'' ''cs'' ''peripherals'' clock_c gs1 = (q2, gs2) \<and>
    status q2 = ''success''"
    using v g1 g2 p1 p2 by (intro conjI)
  note rn = inst[THEN conjunct2, THEN conjunct2, THEN conjunct2, THEN mp, OF hr]
  have h1: "filepath q1 = ''generated_renode/peripherals/cs/uart_20240309_070501.cs''"
    using rn[THEN conjunct1] unfolding m1 .
  have h2: "filepath q2 = ''generated_renode/peripherals/cs/uart_20240309_070502.cs''"
    using rn[THEN conjunct2, THEN conjunct1] unfolding m2 .
  have h3: "filepath q1 \<noteq> filepath q2 \<and> read_text gs2 (Path (filepath q1)) = Inr ''first'' \<and>
     read_text gs2 (Path (filepath q2)) = Inr ''second''"
    using rn[THEN conjunct2, THEN conjunct2, THEN conjunct2, THEN conjunct2] v(3)
    by simp
  have a: "\<exists>r1 fs1 r2 fs2.
      save_test_case posix ''test_read'' ''first'' ''general'' clock_a fs_empty = (r1, fs1) \<and>
      status r1 = ''success'' \<and>
      save_test_case posix ''test_read'' ''second'' ''general'' clock_c fs1 = (r2, fs2) \<and>
      status r2 = ''success'' \<and>
      filepath r1 = ''generated_tests/general/test_read_20240309_070501.py'' \<and>
      filepath r2 = ''generated_tests/general/test_read_20240309_070502.py'' \<and>
      filepath r1 \<noteq> filepath r2 \<and> read_text fs2 (Path (filepath r1)) = Inr ''first'' \<and>
      read_text fs2 (Path (filepath r2)) = Inr ''second''"
    using e1 o1 e2 o2 f1 f2 f3 by blast
  have b: "\<exists>q1 gs1 q2 gs2.
      save_renode_code posix ''uart'' ''first'' ''cs'' ''peripherals'' clock_a fs_empty = (q1, gs1) \<and>
      status q1 = ''success'' \<and>
      save_renode_code posix ''uart'' ''second'' ''cs'' ''peripherals'' clock_c gs1 = (q2, gs2) \<and>
      status q2 = ''success'' \<and>
      filepath q1 = ''generated_renode/peripherals/cs/uart_20240309_070501.cs'' \<and>
      filepath q2 = ''generated_renode/peripherals/cs/uart_20240309_070502.cs'' \<and>
      filepath q1 \<noteq> filepath q2 \<and> read_text gs2 (Path (filepath q1)) = Inr ''first'' \<and>
      read_text gs2 (Path (filepath q2)) = Inr ''second''"
    using g1 p1 g2 p2 h1 h2 h3 by blast
  from v t a b show ?thesis by (intro conjI)
qed

section \<open>Uploads: what a batch leaves on disk\<close>

lemma map_of_dir_write:
  "map_of (dir_write file buffer d) x = (if x = file then Some buffer else map_of d x)"
  by (induction d) auto

lemma dir_write_names:
  "map fst (dir_write file buffer d) =
     (if file \<in> set (map fst d) then map fst d else map fst d @ [file])"
  by (induction d) auto

lemma distinct_dir_write: "distinct (map fst d) \<Longrightarrow> distinct (map fst (dir_write file buffer d))"
  by (simp add: dir_write_names)

lemma guarded_loop_Cons:
  "fst (guarded_loop folder (f # fs) d updated) =
     (if map_of d (fst f) = None
      then File_write folder (fst f) #
           fst (guarded_loop folder fs (dir_write (fst f) (snd f) d) True)
      else fst (guarded_loop folder fs d updated))"
  "fst (snd (guarded_loop folder (f # fs) d updated)) =
     (if map_of d (fst f) = None
      then fst (snd (guarded_loop folder fs (dir_write (fst f) (snd f) d) True))
      else fst (snd (guarded_loop folder fs d updated)))"
  "snd (snd (guarded_loop folder (f # fs) d updated)) =
     (if map_of d (fst f) = None
      then snd (snd (guarded_loop folder fs (dir_write (fst f) (snd f) d) True))
      else snd (snd (guarded_loop folder fs d updated)))"
  by (auto simp: store_guarded_def split: prod.splits)

lemma always_loop_Cons:
  "fst (always_loop folder (f # fs) d updated) =
     File_write folder (fst f) # fst (always_loop folder fs (dir_write (fst f) (snd f) d) True)"
  "fst (snd (always_loop folder (f # fs) d updated)) =
     fst (snd (always_loop folder fs (dir_write (fst f) (snd f) d) True))"
  "snd (snd (always_loop folder (f # fs) d updated)) =
     snd (snd (always_loop folder fs (dir_write (fst f) (snd f) d) True))"
  by (auto simp: store_always_def split: prod.splits)

lemma guarded_loop_lookup:
  "map_of (fst (snd (guarded_loop folder fs d updated))) x =
     (case map_of d x of Some b \<Rightarrow> Some b | None \<Rightarrow> map_of fs x)"
proof (induction fs arbitrary: d updated)
  case Nil
  then show ?case by (simp split: option.splits)
next
  case (Cons f fs)
  obtain n b where f: "f = (n, b)" by (cases f)
  show ?case
  proof (cases "map_of d n")
    case None
    have "map_of (fst (snd (guarded_loop folder (f # fs) d updated))) x =
        map_of (fst (snd (guarded_loop folder fs (dir_write n b d) True))) x"
      using None by (simp add: f guarded_loop_Cons del: guarded_loop.simps)
    also have "\<dots> = (case map_of (dir_write n b d) x of Some b \<Rightarrow> Some b | None \<Rightarrow> map_of fs x)"
      by (rule Cons.IH)
    finally show ?thesis using None by (simp add: f map_of_dir_write split: option.splits)
  next
    case (Some b0)
    have "map_of (fst (snd (guarded_loop folder (f # fs) d updated))) x =
        map_of (fst (snd (guarded_loop folder fs d updated))) x"
      using Some by (simp add: f guarded_loop_Cons del: guarded_loop.simps)
    also have "\<dots> = (case map_of d x of Some b \<Rightarrow> Some b | None \<Rightarrow> map_of fs x)"
      by (rule Cons.IH)
    finally show ?thesis using Some by (auto simp: f split: option.splits)
  qed
qed

lemma guarded_loop_content:
  "map_of (fst (snd (guarded_loop folder fs d updated))) = map_of fs ++ map_of d"
  by (auto simp: fun_eq_iff guarded_loop_lookup map_add_def split: option.splits)



lemma guarded_loop_distinct:
  "distinct (map fst d) \<Longrightarrow> distinct (map fst (fst (snd (guarded_loop folder fs d updated))))"
  by (induction fs arbitrary: d updated)
     (simp_all add: guarded_loop_Cons distinct_dir_write del: guarded_loop.simps(2))

lemma always_loop_distinct:
  "distinct (map fst d) \<Longrightarrow> distinct (map fst (fst (snd (always_loop folder fs d updated))))"
  by (induction fs arbitrary: d updated)
     (simp_all add: always_loop_Cons distinct_dir_write del: always_loop.simps(2))

lemma always_loop_lookup:
  "map_of (fst (snd (always_loop folder fs d updated))) x =
     (case map_of (rev fs) x of Some b \<Rightarrow> Some b | None \<Rightarrow> map_of d x)"
proof (induction fs arbitrary: d updated)
  case Nil
  then show ?case by simp
next
  case (Cons f fs)
  obtain n b where f: "f = (n, b)" by (cases f)
  have "map_of (fst (snd (always_loop folder (f # fs) d updated))) x =
      map_of (fst (snd (always_loop folder fs (dir_write n b d) True))) x"
    by (simp add: f always_loop_Cons del: always_loop.simps)
  also have "\<dots> = (case map_of (rev fs) x of Some b \<Rightarrow> Some b
                    | None \<Rightarrow> map_of (dir_write n b d) x)"
    by (rule Cons.IH)
  finally show ?case
    by (auto simp: f map_of_dir_write map_add_def split: option.splits)
qed

lemma always_loop_content:
  "map_of (fst (snd (always_loop folder fs d updated))) = map_of d ++ map_of (rev fs)"
  by (auto simp: fun_eq_iff always_loop_lookup map_add_def split: option.splits)

lemma always_loop_written: "snd (snd (always_loop folder fs d updated)) = (updated \<or> fs \<noteq> [])"
  by (induction fs arbitrary: d updated)
     (simp_all add: always_loop_Cons del: always_loop.simps(2))

lemma always_loop_writes:
  "fst (always_loop folder fs d updated) = map (\<lambda>f. File_write folder (fst f)) fs"
  by (induction fs arbitrary: d updated)
     (simp_all add: always_loop_Cons del: always_loop.simps(2))





lemma analysis_upload_loads:
  "list_ex is_load (fst (analysis_upload load code_files uploaded_code)) = (code_files \<noteq> [])"
  by (auto simp: analysis_upload_def split: prod.splits option.splits)



text \<open>
  The guarded stores, for every input. In code-reviewer.py, pynvme.py and renode.py an
  upload is first-write-wins: storing a file whose name exists leaves the directory as
  it is and reports that nothing was written, and storing a new name writes the bytes
  and reports the write; a second store of that name, with any bytes, changes nothing.
  After a whole batch every name that was on disk has its old content and every new name
  the bytes of its first occurrence in the batch.
\<close>

lemma upload_first_write_wins:
  "(map_of d file = Some a \<longrightarrow> store_guarded (file, b) d = (d, False)) \<and>
   (map_of d file = None \<longrightarrow>
      (case store_guarded (file, a) d of
         (d1, written1) \<Rightarrow>
           written1 \<and> map_of d1 = (map_of d)(file \<mapsto> a) \<and>
           (case store_guarded (file, b) d1 of
              (d2, written2) \<Rightarrow> \<not> written2 \<and> d2 = d1 \<and> map_of d2 file = Some a))) \<and>
   (case reviewer_upload load code_files doc_files (uploaded_code, uploaded_docs) of
      (trace, code_dir, docs_dir) \<Rightarrow>
        map_of code_dir = map_of code_files ++ map_of uploaded_code \<and>
        map_of docs_dir = map_of doc_files ++ map_of uploaded_docs) \<and>
   map_of (snd (pynvme_upload load doc_files pressed docs)) = map_of doc_files ++ map_of docs \<and>
   map_of (snd (renode_upload load doc_files pressed docs)) = map_of doc_files ++ map_of docs"
proof (intro conjI impI)
  assume "map_of d file = Some a"
  then show "store_guarded (file, b) d = (d, False)" by (simp add: store_guarded_def)
next
  assume n: "map_of d file = None"
  have "map_of (dir_write file a d) = (map_of d)(file \<mapsto> a)"
    by (auto simp: fun_eq_iff map_of_dir_write)
  with n show "case store_guarded (file, a) d of
         (d1, written1) \<Rightarrow>
           written1 \<and> map_of d1 = (map_of d)(file \<mapsto> a) \<and>
           (case store_guarded (file, b) d1 of
              (d2, written2) \<Rightarrow> \<not> written2 \<and> d2 = d1 \<and> map_of d2 file = Some a)"
    by (simp add: store_guarded_def)
next
  have c: "map_of (fst (snd (guarded_loop ''uploaded_code'' code_files uploaded_code False))) =
      map_of code_files ++ map_of uploaded_code"
    and d: "map_of (fst (snd (guarded_loop ''uploaded_docs'' doc_files uploaded_docs False))) =
      map_of doc_files ++ map_of uploaded_docs"
    by (simp_all add: guarded_loop_content)
  show "case reviewer_upload load code_files doc_files (uploaded_code, uploaded_docs) of
      (trace, code_dir, docs_dir) \<Rightarrow>
        map_of code_dir = map_of code_files ++ map_of uploaded_code \<and>
        map_of docs_dir = map_of doc_files ++ map_of uploaded_docs"
    using c d by (auto simp: reviewer_upload_def split: prod.splits)
next
  show "map_of (snd (pynvme_upload load doc_files pressed docs)) = map_of doc_files ++ map_of docs"
    using guarded_loop_content[of "''pynvme_docs''" doc_files docs False]
    by (auto simp: pynvme_upload_def docs_upload_def split: prod.splits)
next
  show "map_of (snd (renode_upload load doc_files pressed docs)) = map_of doc_files ++ map_of docs"
    using guarded_loop_content[of "''renode_docs''" doc_files docs False]
    by (auto simp: renode_upload_def docs_upload_def split: prod.splits)
qed

text \<open>
  The unguarded store of code-analysis.py, for every input: every store writes, and
  after a batch the content of a submitted name is that of its last occurrence in the
  batch, whatever was on disk; the load follows every batch that is not empty.
\<close>

lemma analysis_upload_last_write_wins:
  "(case store_always (file, b) d of
      (d1, written1) \<Rightarrow> written1 \<and> map_of d1 = (map_of d)(file \<mapsto> b)) \<and>
   map_of (snd (analysis_upload load code_files uploaded_code)) =
     map_of uploaded_code ++ map_of (rev code_files) \<and>
   filter is_write (fst (analysis_upload load code_files uploaded_code)) =
     map (\<lambda>f. File_write ''uploaded_code'' (fst f)) code_files \<and>
   list_ex is_load (fst (analysis_upload load code_files uploaded_code)) = (code_files \<noteq> [])"
proof (intro conjI)
  have "map_of (dir_write file b d) = (map_of d)(file \<mapsto> b)"
    by (auto simp: fun_eq_iff map_of_dir_write)
  then show "case store_always (file, b) d of
      (d1, written1) \<Rightarrow> written1 \<and> map_of d1 = (map_of d)(file \<mapsto> b)"
    by (simp add: store_always_def)
next
  show "map_of (snd (analysis_upload load code_files uploaded_code)) =
     map_of uploaded_code ++ map_of (rev code_files)"
    using always_loop_content[of "''uploaded_code''" code_files uploaded_code False]
    by (auto simp: analysis_upload_def split: prod.splits)
next
  have m: "filter is_write (map (\<lambda>f. File_write folder (fst f)) fs) =
      map (\<lambda>f. File_write folder (fst f)) fs" for folder and fs :: "uploaded_file list"
    by (induction fs) auto
  show "filter is_write (fst (analysis_upload load code_files uploaded_code)) =
     map (\<lambda>f. File_write ''uploaded_code'' (fst f)) code_files"
    using always_loop_writes[of "''uploaded_code''" code_files uploaded_code False]
    by (auto simp: analysis_upload_def m split: prod.splits option.splits)
next
  show "list_ex is_load (fst (analysis_upload load code_files uploaded_code)) = (code_files \<noteq> [])"
    by (rule analysis_upload_loads)
qed

text \<open>
  Claim C1 at a second upload of \<^verbatim>\<open>driver.c\<close> in code-analysis.py. The file is on disk
  with the bytes \<^verbatim>\<open>int a;\<close>, from a first upload. Storing it again with the bytes
  \<^verbatim>\<open>int b;\<close> reports a write and leaves \<^verbatim>\<open>int b;\<close> on disk, where the claim has the
  first bytes stay and no write reported; the run writes the file and loads the
  knowledge base again. On the same input the loop of code-reviewer.py, which tests
  \<^verbatim>\<open>os.path.exists\<close> before it writes, leaves the file as it was, writes nothing and
  loads nothing.
\<close>

theorem analysis_upload_overwrites:
  "map_of [(''driver.c'', ''int a;'')] ''driver.c'' = Some ''int a;'' \<and>
   store_always (''driver.c'', ''int b;'') [(''driver.c'', ''int a;'')] =
     ([(''driver.c'', ''int b;'')], True) \<and>
   snd (analysis_upload (\<lambda>k. None) [(''driver.c'', ''int a;'')] []) = [(''driver.c'', ''int a;'')] \<and>
   snd (analysis_upload (\<lambda>k. None) [(''driver.c'', ''int b;'')] [(''driver.c'', ''int a;'')]) =
     [(''driver.c'', ''int b;'')] \<and>
   fst (analysis_upload (\<lambda>k. None) [(''driver.c'', ''int b;'')] [(''driver.c'', ''int a;'')]) =
     [File_write ''uploaded_code'' ''driver.c'', St_success ''Uploaded 1 code file(s)'',
      Kb_load Code_knowledge False True, St_success ''Knowledge base updated!''] \<and>
   store_guarded (''driver.c'', ''int b;'') [(''driver.c'', ''int a;'')] =
     ([(''driver.c'', ''int a;'')], False) \<and>
   reviewer_upload (\<lambda>k. None) [(''driver.c'', ''int b;'')] [] ([(''driver.c'', ''int a;'')], []) =
     ([], [(''driver.c'', ''int a;'')], [])"
  by (simp add: store_always_def store_guarded_def analysis_upload_def reviewer_upload_def
      str_nat.simps[of "Suc 0"] digit_def)






section \<open>Ingestion never drops what is indexed\<close>

lemma upsert_chunk_ids:
  "map fst (upsert_chunk c es) =
     (if fst c \<in> set (map fst es) then map fst es else map fst es @ [fst c])"
  by (induction es) auto










lemma fst_refresh [simp]: "fst (refresh docs e) = fst e"
  by (simp add: refresh_def split: option.splits)





























section \<open>Clearing: which deletions are tried\<close>

lemma fst_clear_folders_Cons:
  "fst (clear_folders rm trees (folder # folders) present) =
     (if present folder then
        (case rm (trees folder) of
           Inr gone \<Rightarrow>
             folder_events rm trees folder @
             fst (clear_folders rm trees folders (present(folder := \<not> gone)))
         | Inl e \<Rightarrow>
             folder_events rm trees folder @ fst (clear_folders rm trees folders present))
      else fst (clear_folders rm trees folders present))"
proof (cases "present folder")
  case False
  then show ?thesis by simp
next
  case True
  show ?thesis
  proof (cases "rm (trees folder)")
    case (Inl e)
    with True show ?thesis
      by (cases "clear_folders rm trees folders present") (simp add: folder_events_def)
  next
    case (Inr gone)
    with True show ?thesis
      by (cases "clear_folders rm trees folders (present(folder := \<not> gone))")
        (simp add: folder_events_def)
  qed
qed

lemma filter_present_upd:
  "folder \<notin> set folders \<Longrightarrow> filter (present(folder := b)) folders = filter present folders"
  by (induction folders) auto

lemma clear_folders_trace:
  "distinct folders \<Longrightarrow>
   fst (clear_folders rm trees folders present) =
     concat (map (folder_events rm trees) (filter present folders))"
proof (induction folders arbitrary: present)
  case Nil
  then show ?case by simp
next
  case (Cons folder folders)
  then have d: "distinct folders" and n: "folder \<notin> set folders" by auto
  note ih = Cons.IH[OF d]
  show ?case
  proof (cases "present folder")
    case False
    then show ?thesis by (simp only: fst_clear_folders_Cons if_False ih filter.simps)
  next
    case True
    show ?thesis
    proof (cases "rm (trees folder)")
      case (Inl e)
      have "fst (clear_folders rm trees (folder # folders) present) =
          folder_events rm trees folder @ fst (clear_folders rm trees folders present)"
        using True Inl by (simp only: fst_clear_folders_Cons if_True sum.case)
      also have "\<dots> = folder_events rm trees folder @
          concat (map (folder_events rm trees) (filter present folders))"
        by (simp only: ih)
      finally show ?thesis using True by simp
    next
      case (Inr gone)
      have "fst (clear_folders rm trees (folder # folders) present) =
          folder_events rm trees folder @
          fst (clear_folders rm trees folders (present(folder := \<not> gone)))"
        using True Inr by (simp only: fst_clear_folders_Cons if_True sum.case)
      also have "\<dots> = folder_events rm trees folder @
          concat (map (folder_events rm trees) (filter (present(folder := \<not> gone)) folders))"
        by (simp only: ih)
      also have "\<dots> = folder_events rm trees folder @
          concat (map (folder_events rm trees) (filter present folders))"
        by (simp only: filter_present_upd[OF n])
      finally show ?thesis using True by simp
    qed
  qed
qed


lemma filter_concat_map: "filter P (concat (map f xs)) = concat (map (\<lambda>x. filter P (f x)) xs)"
  by (induction xs) auto

lemma clear_folders_attempts:
  "distinct folders \<Longrightarrow>
   filter is_rmtree (fst (clear_folders rm trees folders present)) =
     map Rmtree (filter present folders)"
proof -
  assume d: "distinct folders"
  have e: "filter is_rmtree (folder_events rm trees folder) = [Rmtree folder]" for folder
    by (simp add: folder_events_def split: sum.splits)
  have "concat (map (\<lambda>x. [Rmtree x]) xs) = map Rmtree xs" for xs
    by (induction xs) auto
  then show ?thesis
    by (simp only: clear_folders_trace[OF d] filter_concat_map e)
qed

lemma clear_folders_warnings:
  "distinct folders \<Longrightarrow>
   filter is_warning (fst (clear_folders rm trees folders present)) =
     concat (map (folder_warning rm trees) (filter present folders))"
proof -
  assume d: "distinct folders"
  have e: "filter is_warning (folder_events rm trees folder) = folder_warning rm trees folder"
    for folder
    by (simp add: folder_events_def folder_warning_def split: sum.splits)
  show ?thesis
    by (simp only: clear_folders_trace[OF d] filter_concat_map e)
qed

lemma reviewer_clear_best_effort:
  "filter is_rmtree (fst (reviewer_clear env key)) =
     map Rmtree (filter (path_exists env) [''uploaded_code'', ''uploaded_docs'', ''./chroma_db'']) \<and>
   filter is_warning (fst (reviewer_clear env key)) =
     (case delete_collection env ''code_review_docs'' of
        None \<Rightarrow> []
      | Some e \<Rightarrow> [St_warning (''Could not delete collection: '' @ str_exn e)]) @
     concat (map (folder_warning rmtree_remove_readonly (tree_at env))
       (filter (path_exists env) [''uploaded_code'', ''uploaded_docs'', ''./chroma_db'']))"
proof -
  let ?fs = "[''uploaded_code'', ''uploaded_docs'', ''./chroma_db'']"
  let ?evs = "fst (clear_folders rmtree_remove_readonly (tree_at env) ?fs (path_exists env))"
  have d: "distinct ?fs" by simp
  have t: "fst (reviewer_clear env key) =
      Delete_collection ''code_review_docs'' #
      (case delete_collection env ''code_review_docs'' of
         None \<Rightarrow> St_info ''ChromaDB collection deleted''
       | Some e \<Rightarrow> St_warning (''Could not delete collection: '' @ str_exn e)) #
      ?evs @ [St_success ''Knowledge base cleared!'', St_rerun]"
    by (cases "clear_folders rmtree_remove_readonly (tree_at env) ?fs (path_exists env)")
      (simp add: reviewer_clear_def del: clear_folders.simps)
  have a: "filter is_rmtree ?evs = map Rmtree (filter (path_exists env) ?fs)"
    by (rule clear_folders_attempts[OF d])
  have w: "filter is_warning ?evs =
      concat (map (folder_warning rmtree_remove_readonly (tree_at env)) (filter (path_exists env) ?fs))"
    by (rule clear_folders_warnings[OF d])
  have 1: "filter is_rmtree (fst (reviewer_clear env key)) = filter is_rmtree ?evs"
    unfolding t by (simp split: option.splits del: clear_folders.simps)
  have 2: "filter is_warning (fst (reviewer_clear env key)) =
     (case delete_collection env ''code_review_docs'' of
        None \<Rightarrow> []
      | Some e \<Rightarrow> [St_warning (''Could not delete collection: '' @ str_exn e)]) @
     filter is_warning ?evs"
    unfolding t by (simp split: option.splits del: clear_folders.simps)
  from 1 2 a w show ?thesis by (simp only:)
qed

lemma docs_clear_folder_loop:
  assumes d: "distinct folders" and ok: "delete_collection env collection = None"
  shows "filter is_rmtree (fst (docs_clear collection folders env key)) =
           map Rmtree (filter (path_exists env) folders) \<and>
         filter is_warning (fst (docs_clear collection folders env key)) =
           concat (map (folder_warning rmtree_ignore_errors (tree_at env))
             (filter (path_exists env) folders))"
proof -
  let ?evs = "fst (clear_folders rmtree_ignore_errors (tree_at env) folders (path_exists env))"
  have t: "fst (docs_clear collection folders env key) =
      Delete_collection collection # ?evs @ [St_success ''Knowledge base cleared!'', St_rerun]"
    using ok
    by (cases "clear_folders rmtree_ignore_errors (tree_at env) folders (path_exists env)")
      (simp add: docs_clear_def del: clear_folders.simps)
  have a: "filter is_rmtree ?evs = map Rmtree (filter (path_exists env) folders)"
    by (rule clear_folders_attempts[OF d])
  have w: "filter is_warning ?evs =
      concat (map (folder_warning rmtree_ignore_errors (tree_at env))
        (filter (path_exists env) folders))"
    by (rule clear_folders_warnings[OF d])
  have 1: "filter is_rmtree (fst (docs_clear collection folders env key)) = filter is_rmtree ?evs"
    unfolding t by (simp del: clear_folders.simps)
  have 2: "filter is_warning (fst (docs_clear collection folders env key)) = filter is_warning ?evs"
    unfolding t by (simp del: clear_folders.simps)
  from 1 2 a w show ?thesis by (simp only:)
qed

text \<open>
  Claim C4 where the collection is absent, so that \<^verbatim>\<open>delete_collection\<close> raises. In
  pynvme.py and renode.py the handler ends with the error message: no \<^verbatim>\<open>rmtree\<close> is
  called, the three folders are still there and the uploader key is unchanged. In
  code-reviewer.py the failure is a warning and the three folders are removed (for every
  environment: \<open>reviewer_clear_best_effort\<close>; the folder loop of pynvme.py and renode.py,
  once it is reached: \<open>docs_clear_folder_loop\<close>).
\<close>

theorem pynvme_clear_aborts:
  "(case pynvme_clear absent_collection 0 of
      (trace, present', key') \<Rightarrow>
        trace = [Delete_collection ''pynvme_docs'',
                 St_error ''Error clearing knowledge base: Collection pynvme_docs does not exist.''] \<and>
        filter is_rmtree trace = [] \<and>
        present' ''pynvme_docs'' \<and> present' ''./pynvme_chroma_db'' \<and> present' ''generated_tests'' \<and>
        key' = 0) \<and>
   (case renode_clear absent_collection 0 of
      (trace, present', key') \<Rightarrow>
        filter is_rmtree trace = [] \<and>
        present' ''renode_docs'' \<and> present' ''./renode_chroma_db'' \<and> present' ''generated_renode'') \<and>
   (case reviewer_clear absent_collection 0 of
      (trace, present', key') \<Rightarrow>
        trace = [Delete_collection ''code_review_docs'',
                 St_warning ''Could not delete collection: Collection code_review_docs does not exist.'',
                 Rmtree ''uploaded_code'', St_info ''Deleted uploaded_code'',
                 Rmtree ''uploaded_docs'', St_info ''Deleted uploaded_docs'',
                 Rmtree ''./chroma_db'', St_info ''Deleted ./chroma_db'',
                 St_success ''Knowledge base cleared!'', St_rerun] \<and>
        \<not> present' ''uploaded_code'' \<and> \<not> present' ''uploaded_docs'' \<and> \<not> present' ''./chroma_db'' \<and>
        key' = 1)"
  by (simp add: pynvme_clear_def renode_clear_def docs_clear_def reviewer_clear_def
      absent_collection_def)

section \<open>Asking an agent: preconditions and the history\<close>

lemma tab_done_no_run: "\<not> list_ex is_run (tab_done t)" "\<not> list_ex is_warning (tab_done t)"
  by (cases t; simp)+

text \<open>
  Claim C5, as amended. In code-analysis.py and code-reviewer.py the agent is run exactly
  when the folder of code files holds a \<^verbatim>\<open>.c\<close> or \<^verbatim>\<open>.h\<close> file and the text is not empty;
  otherwise the handler shows one warning and does nothing else: it calls no agent, no
  knowledge base and no vector store, and the history is as it was. In pynvme.py the
  agent is run exactly when the text is not empty, whatever \<^verbatim>\<open>pynvme_docs\<close> holds; when
  the text is empty the handler shows one warning and does nothing else.
\<close>

theorem respond_preconditions:
  "list_ex is_run (fst (analysis_analyze run uploaded_code query history)) =
     (code_count uploaded_code \<noteq> 0 \<and> query \<noteq> []) \<and>
   list_ex is_warning (fst (analysis_analyze run uploaded_code query history)) =
     (code_count uploaded_code = 0 \<or> query = []) \<and>
   list_ex is_run (fst (reviewer_tab t run uploaded_code query history)) =
     (code_count uploaded_code \<noteq> 0 \<and> query \<noteq> []) \<and>
   list_ex is_warning (fst (reviewer_tab t run uploaded_code query history)) =
     (code_count uploaded_code = 0 \<or> query = []) \<and>
   list_ex is_run (fst (pynvme_orchestrate run now pynvme_docs query test_category level history)) =
     (query \<noteq> []) \<and>
   list_ex is_warning
       (fst (pynvme_orchestrate run now pynvme_docs query test_category level history)) =
     (query = []) \<and>
   list_ex is_run (fst (pynvme_generate run now pynvme_docs query test_category history)) =
     (query \<noteq> []) \<and>
   list_ex is_warning (fst (pynvme_generate run now pynvme_docs query test_category history)) =
     (query = []) \<and>
   list_ex is_run (fst (pynvme_validate run now pynvme_docs query history)) = (query \<noteq> []) \<and>
   list_ex is_warning (fst (pynvme_validate run now pynvme_docs query history)) = (query = []) \<and>
   list_ex is_run (fst (pynvme_expert run pynvme_docs query history)) = (query \<noteq> []) \<and>
   list_ex is_warning (fst (pynvme_expert run pynvme_docs query history)) = (query = []) \<and>
   (\<exists>m. analysis_analyze run uploaded_code query history = ([St_warning m], history)) =
     (code_count uploaded_code = 0 \<or> query = []) \<and>
   (\<exists>m. reviewer_tab t run uploaded_code query history = ([St_warning m], history)) =
     (code_count uploaded_code = 0 \<or> query = []) \<and>
   (\<exists>m. pynvme_orchestrate run now pynvme_docs query test_category level history =
          ([St_warning m], history)) = (query = []) \<and>
   (\<exists>m. pynvme_generate run now pynvme_docs query test_category history =
          ([St_warning m], history)) = (query = []) \<and>
   (\<exists>m. pynvme_validate run now pynvme_docs query history = ([St_warning m], history)) =
     (query = []) \<and>
   (\<exists>m. pynvme_expert run pynvme_docs query history = ([St_warning m], history)) =
     (query = [])"
proof -
  have 1: "list_ex is_run (fst (analysis_analyze run uploaded_code query history)) =
     (code_count uploaded_code \<noteq> 0 \<and> query \<noteq> [])"
    "list_ex is_warning (fst (analysis_analyze run uploaded_code query history)) =
     (code_count uploaded_code = 0 \<or> query = [])"
    "(\<exists>m. analysis_analyze run uploaded_code query history = ([St_warning m], history)) =
     (code_count uploaded_code = 0 \<or> query = [])"
    by (auto simp: analysis_analyze_def split: sum.splits)
  have 2: "list_ex is_run (fst (reviewer_tab t run uploaded_code query history)) =
     (code_count uploaded_code \<noteq> 0 \<and> query \<noteq> [])"
    "list_ex is_warning (fst (reviewer_tab t run uploaded_code query history)) =
     (code_count uploaded_code = 0 \<or> query = [])"
    "(\<exists>m. reviewer_tab t run uploaded_code query history = ([St_warning m], history)) =
     (code_count uploaded_code = 0 \<or> query = [])"
    by (auto simp: reviewer_tab_def tab_done_no_run split: sum.splits)
  have 3: "list_ex is_run
       (fst (pynvme_orchestrate run now pynvme_docs query test_category level history)) =
     (query \<noteq> [])"
    "list_ex is_warning
       (fst (pynvme_orchestrate run now pynvme_docs query test_category level history)) =
     (query = [])"
    "(\<exists>m. pynvme_orchestrate run now pynvme_docs query test_category level history =
          ([St_warning m], history)) = (query = [])"
    by (auto simp: pynvme_orchestrate_def split: sum.splits)
  have 4: "list_ex is_run (fst (pynvme_generate run now pynvme_docs query test_category history)) =
     (query \<noteq> [])"
    "list_ex is_warning (fst (pynvme_generate run now pynvme_docs query test_category history)) =
     (query = [])"
    "(\<exists>m. pynvme_generate run now pynvme_docs query test_category history =
          ([St_warning m], history)) = (query = [])"
    by (auto simp: pynvme_generate_def split: sum.splits)
  have 5: "list_ex is_run (fst (pynvme_validate run now pynvme_docs query history)) = (query \<noteq> [])"
    "list_ex is_warning (fst (pynvme_validate run now pynvme_docs query history)) = (query = [])"
    "(\<exists>m. pynvme_validate run now pynvme_docs query history = ([St_warning m], history)) =
     (query = [])"
    by (auto simp: pynvme_validate_def split: sum.splits)
  have 6: "list_ex is_run (fst (pynvme_expert run pynvme_docs query history)) = (query \<noteq> [])"
    "list_ex is_warning (fst (pynvme_expert run pynvme_docs query history)) = (query = [])"
    "(\<exists>m. pynvme_expert run pynvme_docs query history = ([St_warning m], history)) =
     (query = [])"
    by (auto simp: pynvme_expert_def split: sum.splits)
  from 1 2 3 4 5 6 show ?thesis by (intro conjI)
qed

text \<open>
  Claim C5 as stated fails in pynvme.py: with no document on disk and the text
  \<^verbatim>\<open>read test\<close> the orchestrator is run.
\<close>

theorem pynvme_runs_without_documents:
  "length ([] :: directory) = 0 \<and>
   pynvme_orchestrate (answers ''def test_read(nvme0): pass'') clock_a [] ''read test''
       ''performance'' ''Standard'' [] =
     ([Agent_run Test_orchestrator (enhanced_query ''read test'' ''performance'' ''Standard''),
       St_success ''Test Generated and Validated!'',
       St_markdown ''def test_read(nvme0): pass''],
      [generation_entry clock_a ''Orchestrated'' ''read test'' ''performance''
         ''def test_read(nvme0): pass''])"
  by (simp add: pynvme_orchestrate_def answers_def)

text \<open>
  Claim C8, as amended. When the agent answers, code-analysis.py and the four tabs of
  code-reviewer.py append one entry with the user's text and the answer; the tabs
  \<^verbatim>\<open>Orchestrated Generation\<close> and \<^verbatim>\<open>Generate Tests\<close> of pynvme.py append one entry with
  the user's text as \<^verbatim>\<open>requirement\<close> and the answer; the tab \<^verbatim>\<open>Validate Tests\<close> appends
  one entry with the answer and the fixed requirement \<^verbatim>\<open>Code validation\<close>. When the
  agent raises, the history is unchanged. The tab \<^verbatim>\<open>PyNVMe Expert\<close> never changes the
  history.
\<close>

theorem session_log:
  "(code_count uploaded_code \<noteq> 0 \<and> query \<noteq> [] \<and> run Code_analyzer query = Inr content \<longrightarrow>
      snd (analysis_analyze run uploaded_code query history) =
        history @ [[(''query'', query), (''response'', content)]]) \<and>
   (run Code_analyzer query = Inl e \<longrightarrow>
      snd (analysis_analyze run uploaded_code query history) = history) \<and>
   (code_count uploaded_code \<noteq> 0 \<and> query \<noteq> [] \<and> run (tab_agent t) query = Inr content \<longrightarrow>
      snd (reviewer_tab t run uploaded_code query history) =
        history @ [[(''type'', tab_type t), (''query'', query), (''response'', content)]]) \<and>
   (run (tab_agent t) query = Inl e \<longrightarrow>
      snd (reviewer_tab t run uploaded_code query history) = history) \<and>
   (query \<noteq> [] \<and> run Test_orchestrator (enhanced_query query test_category level) = Inr content \<longrightarrow>
      snd (pynvme_orchestrate run now pynvme_docs query test_category level history) =
        history @ [generation_entry now ''Orchestrated'' query test_category content]) \<and>
   (run Test_orchestrator (enhanced_query query test_category level) = Inl e \<longrightarrow>
      snd (pynvme_orchestrate run now pynvme_docs query test_category level history) = history) \<and>
   (query \<noteq> [] \<and> run Test_generator (query @ ''\<newline>Category: '' @ test_category) = Inr content \<longrightarrow>
      snd (pynvme_generate run now pynvme_docs query test_category history) =
        history @ [generation_entry now ''Generation'' query test_category content]) \<and>
   (run Test_generator (query @ ''\<newline>Category: '' @ test_category) = Inl e \<longrightarrow>
      snd (pynvme_generate run now pynvme_docs query test_category history) = history) \<and>
   (query \<noteq> [] \<and> run Test_validator (validation_request query) = Inr content \<longrightarrow>
      snd (pynvme_validate run now pynvme_docs query history) =
        history @ [generation_entry now ''Validation'' ''Code validation'' ''validation'' content]) \<and>
   (run Test_validator (validation_request query) = Inl e \<longrightarrow>
      snd (pynvme_validate run now pynvme_docs query history) = history) \<and>
   snd (pynvme_expert run pynvme_docs query history) = history"
  by (auto simp: analysis_analyze_def reviewer_tab_def pynvme_orchestrate_def pynvme_generate_def
      pynvme_validate_def pynvme_expert_def split: sum.splits)

text \<open>
  Claim C8 as stated fails in pynvme.py: the expert answers and the history is as empty
  as before; the entry of a validation holds \<^verbatim>\<open>Code validation\<close>, not the text that
  was validated.
\<close>

theorem expert_answer_is_not_logged:
  "pynvme_expert (answers ''Use the qpair fixture.'') [(''nvme.pdf'', ''spec'')]
       ''How do I use the qpair fixture?'' [] =
     ([Agent_run Pynvme_expert ''How do I use the qpair fixture?'',
       St_markdown ''Use the qpair fixture.''], []) \<and>
   snd (pynvme_validate (answers ''looks fine'') clock_a [] ''def test_x(): pass'' []) =
     [[(''timestamp'', ''2024-03-09 07:05:01''), (''type'', ''Validation''),
       (''requirement'', ''Code validation''), (''category'', ''validation''),
       (''response'', ''looks fine'')]]"
  by (simp add: pynvme_expert_def pynvme_validate_def answers_def generation_entry_def
      strftime_log_def pad2_def pad4_def digit_def clock_a_def)

text \<open>
  The hypotheses of \<open>session_log\<close> with an agent that answers and with one that
  raises: the upload of \<^verbatim>\<open>driver.c\<close> and the question \<^verbatim>\<open>check for buffer overflow\<close>.
\<close>

theorem session_log_witness:
  "code_count [(''driver.c'', ''int a[4];'')] \<noteq> 0 \<and>
   answers ''No overflow found.'' Code_analyzer ''check for buffer overflow'' =
     Inr ''No overflow found.'' \<and>
   snd (analysis_analyze (answers ''No overflow found.'') [(''driver.c'', ''int a[4];'')]
          ''check for buffer overflow'' []) =
     [[(''query'', ''check for buffer overflow''), (''response'', ''No overflow found.'')]] \<and>
   snd (reviewer_tab Code_analysis (answers ''No overflow found.'') [(''driver.c'', ''int a[4];'')]
          ''check for buffer overflow'' []) =
     [[(''type'', ''Code Analysis''), (''query'', ''check for buffer overflow''),
       (''response'', ''No overflow found.'')]] \<and>
   snd (pynvme_orchestrate (answers ''No overflow found.'') clock_a [] ''read test''
          ''performance'' ''Standard'' []) =
     [generation_entry clock_a ''Orchestrated'' ''read test'' ''performance''
        ''No overflow found.''] \<and>
   snd (pynvme_generate (answers ''No overflow found.'') clock_a [] ''read test''
          ''performance'' []) =
     [generation_entry clock_a ''Generation'' ''read test'' ''performance''
        ''No overflow found.''] \<and>
   snd (pynvme_validate (answers ''No overflow found.'') clock_a [] ''def test_x(): pass'' []) =
     [generation_entry clock_a ''Validation'' ''Code validation'' ''validation''
        ''No overflow found.''] \<and>
   fails (Exn ''ConnectionError'' ''refused'') Code_analyzer ''check for buffer overflow'' =
     Inl (Exn ''ConnectionError'' ''refused'') \<and>
   snd (analysis_analyze (fails (Exn ''ConnectionError'' ''refused''))
          [(''driver.c'', ''int a[4];'')] ''check for buffer overflow''
          [[(''query'', ''q0''), (''response'', ''r0'')]]) =
     [[(''query'', ''q0''), (''response'', ''r0'')]] \<and>
   snd (reviewer_tab Code_analysis (fails (Exn ''ConnectionError'' ''refused''))
          [(''driver.c'', ''int a[4];'')] ''check for buffer overflow''
          [[(''query'', ''q0''), (''response'', ''r0'')]]) =
     [[(''query'', ''q0''), (''response'', ''r0'')]] \<and>
   snd (pynvme_orchestrate (fails (Exn ''ConnectionError'' ''refused'')) clock_a [] ''read test''
          ''performance'' ''Standard'' [[(''query'', ''q0''), (''response'', ''r0'')]]) =
     [[(''query'', ''q0''), (''response'', ''r0'')]] \<and>
   snd (pynvme_generate (fails (Exn ''ConnectionError'' ''refused'')) clock_a [] ''read test''
          ''performance'' [[(''query'', ''q0''), (''response'', ''r0'')]]) =
     [[(''query'', ''q0''), (''response'', ''r0'')]] \<and>
   snd (pynvme_validate (fails (Exn ''ConnectionError'' ''refused'')) clock_a []
          ''def test_x(): pass'' [[(''query'', ''q0''), (''response'', ''r0'')]]) =
     [[(''query'', ''q0''), (''response'', ''r0'')]]"
proof -
  let ?dir = "[(''driver.c'', ''int a[4];'')] :: directory"
  let ?q = "''check for buffer overflow''"
  let ?c = "''No overflow found.''"
  let ?e = "Exn ''ConnectionError'' ''refused''"
  let ?h = "[[(''query'', ''q0''), (''response'', ''r0'')]] :: entry list"
  have n: "code_count ?dir \<noteq> 0"
    by (simp add: code_count_def glob_ch_def ends_with_def)
  have a: "answers ?c ag q = Inr ?c" for ag q
    by (simp add: answers_def)
  have f: "fails ?e ag q = Inl ?e" for ag q
    by (simp add: fails_def)
  note ok1 = session_log[where uploaded_code = "?dir" and query = "?q" and run = "answers ?c"
      and content = "?c" and e = "?e" and history = "[]" and t = Code_analysis
      and test_category = "''performance''" and level = "''Standard''" and now = clock_a
      and pynvme_docs = "[]"]
  note ok2 = session_log[where uploaded_code = "?dir" and query = "''read test''" and run = "answers ?c"
      and content = "?c" and e = "?e" and history = "[]" and t = Code_analysis
      and test_category = "''performance''" and level = "''Standard''" and now = clock_a
      and pynvme_docs = "[]"]
  note ok3 = session_log[where uploaded_code = "?dir" and query = "''def test_x(): pass''" and run = "answers ?c"
      and content = "?c" and e = "?e" and history = "[]" and t = Code_analysis
      and test_category = "''performance''" and level = "''Standard''" and now = clock_a
      and pynvme_docs = "[]"]
  note ko1 = session_log[where uploaded_code = "?dir" and query = "?q" and run = "fails ?e"
      and content = "?c" and e = "?e" and history = "?h" and t = Code_analysis
      and test_category = "''performance''" and level = "''Standard''" and now = clock_a
      and pynvme_docs = "[]"]
  note ko2 = session_log[where uploaded_code = "?dir" and query = "''read test''" and run = "fails ?e"
      and content = "?c" and e = "?e" and history = "?h" and t = Code_analysis
      and test_category = "''performance''" and level = "''Standard''" and now = clock_a
      and pynvme_docs = "[]"]
  note ko3 = session_log[where uploaded_code = "?dir" and query = "''def test_x(): pass''" and run = "fails ?e"
      and content = "?c" and e = "?e" and history = "?h" and t = Code_analysis
      and test_category = "''performance''" and level = "''Standard''" and now = clock_a
      and pynvme_docs = "[]"]
  from ok1 ok2 ok3 ko1 ko2 ko3 n a f show ?thesis by simp
qed

section \<open>Properties of the substring test\<close>

lemma starts_with_iff: "starts_with needle hay = (\<exists>rest. hay = needle @ rest)"
  by (induction needle hay rule: starts_with.induct) auto

lemma str_in_iff: "str_in needle hay = (\<exists>pre post. hay = pre @ needle @ post)"
proof (induction hay)
  case Nil
  then show ?case by auto
next
  case (Cons h hs)
  show ?case
  proof
    assume "str_in needle (h # hs)"
    then consider "starts_with needle (h # hs)" | "str_in needle hs" by auto
    then show "\<exists>pre post. h # hs = pre @ needle @ post"
    proof cases
      case 1
      then obtain rest where "h # hs = needle @ rest" by (auto simp: starts_with_iff)
      then have "h # hs = [] @ needle @ rest" by simp
      then show ?thesis by blast
    next
      case 2
      then obtain pre post where "hs = pre @ needle @ post" using Cons.IH by auto
      then have "h # hs = (h # pre) @ needle @ post" by simp
      then show ?thesis by blast
    qed
  next
    assume "\<exists>pre post. h # hs = pre @ needle @ post"
    then obtain pre post where e: "h # hs = pre @ needle @ post" by blast
    show "str_in needle (h # hs)"
    proof (cases pre)
      case Nil
      with e have "starts_with needle (h # hs)" by (auto simp: starts_with_iff)
      then show ?thesis by simp
    next
      case (Cons p ps)
      with e have "hs = ps @ needle @ post" by simp
      then have "str_in needle hs" using Cons.IH by blast
      then show ?thesis by simp
    qed
  qed
qed

section \<open>validate_test_syntax: the verdict and the error list\<close>

lemma check_imports_errors:
  "errors (check_imports imps c vr) =
     errors vr @ map (\<lambda>imp. ''Missing import: '' @ imp) (filter (\<lambda>imp. \<not> str_in imp c) imps)"
  by (induction imps arbitrary: vr) auto

lemma check_imports_is_valid:
  "is_valid (check_imports imps c vr) = (is_valid vr \<and> list_all (\<lambda>imp. str_in imp c) imps)"
  by (induction imps arbitrary: vr) auto

text \<open>
  Claim C9. For every string \<open>test_code\<close>, the result of \<open>validate_test_syntax\<close> has
  \<open>is_valid\<close> true exactly when \<open>test_code\<close> contains each of the three substrings
  \<^verbatim>\<open>pytest\<close>, \<^verbatim>\<open>pynvme\<close> and \<^verbatim>\<open>def test_\<close>; the error list holds exactly one entry for each of
  the three that is missing, in the order of the checks. The function is total: it is a
  HOL function without an error branch, as the source has no raising operation on a string.
\<close>

theorem validate_test_syntax_postcondition:
  "is_valid (validate_test_syntax test_code) =
     ((\<exists>pre post. test_code = pre @ ''pytest'' @ post) \<and>
      (\<exists>pre post. test_code = pre @ ''pynvme'' @ post) \<and>
      (\<exists>pre post. test_code = pre @ ''def test_'' @ post))
   \<and> length (errors (validate_test_syntax test_code)) =
       length (filter (\<lambda>needle. \<not> str_in needle test_code)
                 [''pytest'', ''pynvme'', ''def test_''])
   \<and> errors (validate_test_syntax test_code) =
       (if str_in ''pytest'' test_code then [] else [''Missing import: pytest'']) @
       (if str_in ''pynvme'' test_code then [] else [''Missing import: pynvme'']) @
       (if str_in ''def test_'' test_code then []
        else [''No test function found (should start with 'def test_')''])"
proof -
  have v: "is_valid (validate_test_syntax test_code) =
      (str_in ''pytest'' test_code \<and> str_in ''pynvme'' test_code \<and>
       str_in ''def test_'' test_code)"
    by (simp add: validate_test_syntax_def Let_def required_imports_def
        check_imports_is_valid)
  have e: "errors (validate_test_syntax test_code) =
       (if str_in ''pytest'' test_code then [] else [''Missing import: pytest'']) @
       (if str_in ''pynvme'' test_code then [] else [''Missing import: pynvme'']) @
       (if str_in ''def test_'' test_code then []
        else [''No test function found (should start with 'def test_')''])"
    by (simp add: validate_test_syntax_def Let_def required_imports_def
        check_imports_errors)
  have l: "length (errors (validate_test_syntax test_code)) =
       length (filter (\<lambda>needle. \<not> str_in needle test_code)
                 [''pytest'', ''pynvme'', ''def test_''])"
    unfolding e by simp
  from v e l show ?thesis
    unfolding str_in_iff [symmetric] by blast
qed

end
